theory Spec2Isabelle
  imports Complex_Main
begin

section \<open>JSON text and JSON values\<close>

text \<open>
  The build script validates the default configuration with Python's \<open>json.loads\<close>, and the
  page it generates reads configurations with \<open>JSON.parse\<close> and \<open>Response.json\<close>. Both follow
  the JSON grammar (RFC 8259); \<open>json.loads\<close> accepts the three constants \<open>NaN\<close>, \<open>Infinity\<close>
  and \<open>-Infinity\<close> in addition. Text is a list of characters with code points below 256.

  A number is kept as the exact rational its literal denotes. A string is kept as it is
  written between its quotes, escape sequences unresolved: the code under study never looks
  inside a string, only at whether it is empty, and a lexeme is empty exactly when the
  string it denotes is. Objects keep their members in the order written.
\<close>

datatype json =
    JNull
  | JBool bool
  | JNum rat
  | JNaN
  | JInfinity bool
  | JStr string
  | JArr "json list"
  | JObj "(string \<times> json) list"

definition json_ws :: "char \<Rightarrow> bool" where
  "json_ws c \<longleftrightarrow> c = CHR 0x20 \<or> c = CHR 0x09 \<or> c = CHR 0x0A \<or> c = CHR 0x0D"

definition skip_ws :: "string \<Rightarrow> string" where
  "skip_ws s = dropWhile json_ws s"

definition is_digit :: "char \<Rightarrow> bool" where
  "is_digit c \<longleftrightarrow> (48::nat) \<le> of_char c \<and> of_char c \<le> (57::nat)"

definition is_hex :: "char \<Rightarrow> bool" where
  "is_hex c \<longleftrightarrow> is_digit c
     \<or> ((65::nat) \<le> of_char c \<and> of_char c \<le> (70::nat))
     \<or> ((97::nat) \<le> of_char c \<and> of_char c \<le> (102::nat))"

definition digit_val :: "char \<Rightarrow> nat" where
  "digit_val c = of_char c - 48"

definition digits_val :: "string \<Rightarrow> nat" where
  "digits_val ds = foldl (\<lambda>acc d. 10 * acc + digit_val d) 0 ds"

fun strip_prefix :: "string \<Rightarrow> string \<Rightarrow> string option" where
  "strip_prefix [] s = Some s"
| "strip_prefix (p # ps) [] = None"
| "strip_prefix (p # ps) (c # cs) = (if p = c then strip_prefix ps cs else None)"

text \<open>
  \<open>scan_string\<close> reads a string after its opening quote, up to the closing quote. A
  backslash is followed by one of \<open>" \ / b f n r t\<close> or by \<open>u\<close> and four hexadecimal digits;
  a raw control character (below 0x20) is an error.
\<close>

fun scan_string :: "string \<Rightarrow> (string \<times> string) option" where
  "scan_string [] = None"
| "scan_string (c # cs) =
    (if c = CHR 0x22 then Some ([], cs)
     else if c = CHR 0x5C then
       (case cs of
          [] \<Rightarrow> None
        | e # r \<Rightarrow>
            if e \<in> set [CHR 0x22, CHR 0x5C, CHR ''/'', CHR ''b'', CHR ''f'', CHR ''n'', CHR ''r'', CHR ''t''] then
              (case scan_string r of
                 None \<Rightarrow> None
               | Some (x, r') \<Rightarrow> Some (c # e # x, r'))
            else if e = CHR ''u'' \<and> 4 \<le> length r \<and> list_all is_hex (take 4 r) then
              (case scan_string (drop 4 r) of
                 None \<Rightarrow> None
               | Some (x, r') \<Rightarrow> Some (c # e # take 4 r @ x, r'))
            else None)
     else if of_char c < (32::nat) then None
     else
       (case scan_string cs of
          None \<Rightarrow> None
        | Some (x, r') \<Rightarrow> Some (c # x, r')))"

text \<open>
  \<open>scan_number\<close> follows the pattern \<open>-?(0|[1-9][0-9]*)(\.[0-9]+)?([eE][-+]?[0-9]+)?\<close>: the
  fraction and the exponent are taken only when they are complete, and what follows the
  number is left to the caller.
\<close>

definition scan_int_part :: "string \<Rightarrow> (nat \<times> string) option" where
  "scan_int_part s =
    (case s of
       [] \<Rightarrow> None
     | c # r \<Rightarrow>
         if c = CHR ''0'' then Some (0, r)
         else if is_digit c then Some (digits_val (takeWhile is_digit s), dropWhile is_digit s)
         else None)"

definition scan_frac_part :: "string \<Rightarrow> rat \<times> string" where
  "scan_frac_part s =
    (case s of
       [] \<Rightarrow> (0, s)
     | c # r \<Rightarrow>
         if c = CHR ''.'' \<and> takeWhile is_digit r \<noteq> [] then
           (of_nat (digits_val (takeWhile is_digit r)) / 10 ^ length (takeWhile is_digit r),
            dropWhile is_digit r)
         else (0, s))"

definition scan_exp_part :: "string \<Rightarrow> int \<times> string" where
  "scan_exp_part s =
    (case s of
       [] \<Rightarrow> (0, s)
     | c # r \<Rightarrow>
         if c = CHR ''e'' \<or> c = CHR ''E'' then
           (let neg = (r \<noteq> [] \<and> hd r = CHR ''-'');
                r1 = (if r \<noteq> [] \<and> (hd r = CHR ''-'' \<or> hd r = CHR ''+'') then tl r else r);
                ds = takeWhile is_digit r1
            in if ds = [] then (0, s)
               else ((if neg then - int (digits_val ds) else int (digits_val ds)),
                     dropWhile is_digit r1))
         else (0, s))"

definition scale10 :: "rat \<Rightarrow> int \<Rightarrow> rat" where
  "scale10 q e = (if 0 \<le> e then q * 10 ^ nat e else q / 10 ^ nat (- e))"

definition scan_number :: "string \<Rightarrow> (rat \<times> string) option" where
  "scan_number s =
    (let neg = (s \<noteq> [] \<and> hd s = CHR ''-'');
         s1 = (if neg then tl s else s)
     in case scan_int_part s1 of
          None \<Rightarrow> None
        | Some (i, s2) \<Rightarrow>
            (case scan_frac_part s2 of (f, s3) \<Rightarrow>
              (case scan_exp_part s3 of (e, s4) \<Rightarrow>
                 Some (scale10 ((if neg then - 1 else 1) * (of_nat i + f)) e, s4))))"

text \<open>
  The values that hold no other value, in the order in which \<open>json.loads\<close> tries them:
  \<open>null\<close>, \<open>true\<close>, \<open>false\<close>, a number, and, when the flag \<open>ext\<close> admits them, the
  constants \<open>NaN\<close>, \<open>Infinity\<close> and \<open>-Infinity\<close>.
\<close>

definition parse_atom :: "bool \<Rightarrow> string \<Rightarrow> (json \<times> string) option" where
  "parse_atom ext s =
    (case strip_prefix ''null'' s of
       Some r \<Rightarrow> Some (JNull, r)
     | None \<Rightarrow>
    (case strip_prefix ''true'' s of
       Some r \<Rightarrow> Some (JBool True, r)
     | None \<Rightarrow>
    (case strip_prefix ''false'' s of
       Some r \<Rightarrow> Some (JBool False, r)
     | None \<Rightarrow>
    (case scan_number s of
       Some (q, r) \<Rightarrow> Some (JNum q, r)
     | None \<Rightarrow>
         if \<not> ext then None
         else
           (case strip_prefix ''NaN'' s of
              Some r \<Rightarrow> Some (JNaN, r)
            | None \<Rightarrow>
           (case strip_prefix ''Infinity'' s of
              Some r \<Rightarrow> Some (JInfinity False, r)
            | None \<Rightarrow>
           (case strip_prefix ''-Infinity'' s of
              Some r \<Rightarrow> Some (JInfinity True, r)
            | None \<Rightarrow> None)))))))"

text \<open>
  The value parser, with the nesting bounded by a fuel argument. A value is a string, an
  object, an array, or one of the values above, tried in this order.
\<close>

fun parse_value :: "bool \<Rightarrow> nat \<Rightarrow> string \<Rightarrow> (json \<times> string) option"
  and parse_elements :: "bool \<Rightarrow> nat \<Rightarrow> string \<Rightarrow> (json list \<times> string) option"
  and parse_members :: "bool \<Rightarrow> nat \<Rightarrow> string \<Rightarrow> ((string \<times> json) list \<times> string) option"
where
  "parse_value ext 0 s = None"
| "parse_value ext (Suc n) s =
    (case skip_ws s of
       [] \<Rightarrow> None
     | c # r \<Rightarrow>
         if c = CHR 0x22 then
           (case scan_string r of None \<Rightarrow> None | Some (x, r') \<Rightarrow> Some (JStr x, r'))
         else if c = CHR ''{'' then
           (case skip_ws r of
              [] \<Rightarrow> None
            | d # r' \<Rightarrow>
                if d = CHR ''}'' then Some (JObj [], r')
                else (case parse_members ext n (d # r') of
                        None \<Rightarrow> None
                      | Some (ms, r'') \<Rightarrow> Some (JObj ms, r'')))
         else if c = CHR ''['' then
           (case skip_ws r of
              [] \<Rightarrow> None
            | d # r' \<Rightarrow>
                if d = CHR '']'' then Some (JArr [], r')
                else (case parse_elements ext n (d # r') of
                        None \<Rightarrow> None
                      | Some (vs, r'') \<Rightarrow> Some (JArr vs, r'')))
         else parse_atom ext (c # r))"
| "parse_elements ext 0 s = None"
| "parse_elements ext (Suc n) s =
    (case parse_value ext n s of
       None \<Rightarrow> None
     | Some (v, r) \<Rightarrow>
         (case skip_ws r of
            [] \<Rightarrow> None
          | c # r' \<Rightarrow>
              if c = CHR '']'' then Some ([v], r')
              else if c = CHR '','' then
                (case parse_elements ext n r' of
                   None \<Rightarrow> None
                 | Some (vs, r'') \<Rightarrow> Some (v # vs, r''))
              else None))"
| "parse_members ext 0 s = None"
| "parse_members ext (Suc n) s =
    (case skip_ws s of
       [] \<Rightarrow> None
     | q # r \<Rightarrow>
         if q \<noteq> CHR 0x22 then None
         else
           (case scan_string r of
              None \<Rightarrow> None
            | Some (k, r1) \<Rightarrow>
                (case skip_ws r1 of
                   [] \<Rightarrow> None
                 | c # r2 \<Rightarrow>
                     if c \<noteq> CHR '':'' then None
                     else
                       (case parse_value ext n r2 of
                          None \<Rightarrow> None
                        | Some (v, r3) \<Rightarrow>
                            (case skip_ws r3 of
                               [] \<Rightarrow> None
                             | d # r4 \<Rightarrow>
                                 if d = CHR ''}'' then Some ([(k, v)], r4)
                                 else if d = CHR '','' then
                                   (case parse_members ext n r4 of
                                      None \<Rightarrow> None
                                    | Some (ms, r5) \<Rightarrow> Some ((k, v) # ms, r5))
                                 else None)))))"

text \<open>
  A text is a JSON document when one value, surrounded by optional whitespace, makes up all
  of it. Twice the length of the text is fuel enough: more fuel gives the same result
  (lemma \<open>json_document_fuel\<close> below).
\<close>

definition json_document :: "bool \<Rightarrow> string \<Rightarrow> json option" where
  "json_document ext s =
    (case parse_value ext (2 * length s + 2) s of
       None \<Rightarrow> None
     | Some (v, r) \<Rightarrow> if skip_ws r = [] then Some v else None)"

definition json_loads :: "string \<Rightarrow> json option" where
  "json_loads s = json_document True s"

definition JSON_parse :: "string \<Rightarrow> json option" where
  "JSON_parse s = json_document False s"

text \<open>
  Truthiness of a value, as the test \<open>if (DEFAULT_CONFIG)\<close> sees it: \<open>null\<close>, \<open>false\<close>,
  \<open>NaN\<close>, the empty string and zero are falsy, every object and array is truthy. A number
  literal is zero as a double when rounding to nearest (ties to even) takes it to zero,
  that is when its magnitude is at most \<open>2^-1075\<close>, half the least positive double.
\<close>

fun js_truthy :: "json \<Rightarrow> bool" where
  "js_truthy JNull = False"
| "js_truthy (JBool b) = b"
| "js_truthy (JNum q) = (1 / 2 ^ 1075 < \<bar>q\<bar>)"
| "js_truthy JNaN = False"
| "js_truthy (JInfinity neg) = True"
| "js_truthy (JStr s) = (s \<noteq> [])"
| "js_truthy (JArr vs) = True"
| "js_truthy (JObj ms) = True"

section \<open>The build script\<close>

subsection \<open>Files, exceptions and output\<close>

text \<open>
  A path of the file system holds a readable text, holds something \<open>read_file\<close> cannot read
  (no permission, not UTF-8), or holds nothing. Opening a path for writing can be refused.
\<close>

datatype node = Absent | Unreadable | File string

record filesystem =
  nodes :: "string \<Rightarrow> node"
  writable :: "string \<Rightarrow> bool"

datatype py_exception =
    FileNotFoundError string
  | ReadError string
  | PermissionError string
  | JSONDecodeError string

text \<open>
  A line of standard output: a text, or a text followed by the rendering of an exception
  (\<open>print(f"Error reading config: {e}")\<close>), whose wording is Python's own.
\<close>

datatype printed = Line string | Report string py_exception

definition read_file :: "filesystem \<Rightarrow> string \<Rightarrow> py_exception + string" where
  "read_file fs path =
    (case nodes fs path of
       Absent \<Rightarrow> Inl (FileNotFoundError path)
     | Unreadable \<Rightarrow> Inl (ReadError path)
     | File text \<Rightarrow> Inr text)"

definition write_file :: "filesystem \<Rightarrow> string \<Rightarrow> string \<Rightarrow> py_exception + filesystem" where
  "write_file fs path text =
    (if writable fs path then Inr (fs\<lparr>nodes := (nodes fs)(path := File text)\<rparr>)
     else Inl (PermissionError path))"

text \<open>\<open>os.path.join\<close> on two components.\<close>

definition path_join :: "string \<Rightarrow> string \<Rightarrow> string" where
  "path_join a b =
    (if b \<noteq> [] \<and> hd b = CHR ''/'' then b
     else if a = [] \<or> last a = CHR ''/'' then a @ b
     else a @ ''/'' @ b)"

text \<open>The paths of the script; \<open>ROOT_DIR\<close> is the directory that holds the script.\<close>

definition CONFIG_PATH :: "string \<Rightarrow> string" where
  "CONFIG_PATH ROOT_DIR = path_join (path_join ROOT_DIR ''configs'') ''genome-data.config.json''"

definition CSS_PATH :: "string \<Rightarrow> string" where
  "CSS_PATH ROOT_DIR = path_join (path_join ROOT_DIR ''css'') ''table-renderer.css''"

definition JS_DIR :: "string \<Rightarrow> string" where
  "JS_DIR ROOT_DIR = path_join ROOT_DIR ''js''"

definition OUTPUT_FILE :: "string \<Rightarrow> string" where
  "OUTPUT_FILE ROOT_DIR = path_join ROOT_DIR ''viewer.html''"

definition js_files :: "string list" where
  "js_files =
    [''config-schema.js'',
     ''transformers.js'',
     ''kbase-client.js'',
     ''category-manager.js'',
     ''table-renderer.js'']"

subsection \<open>The document template\<close>

text \<open>
  The f-string of \<open>build\<close>, cut at its three placeholders; the doubled braces of the
  f-string are written as the single braces they produce.
\<close>

definition template_head :: string where
  \<comment> \<open>the document up to the place of the stylesheet\<close>
  \<open>template_head = concat
    [''<!DOCTYPE html>\<newline>'',
     ''<html lang="en">\<newline>'',
     ''<head>\<newline>'',
     ''    <meta charset="UTF-8">\<newline>'',
     ''    <meta name="viewport" content="width=device-width, initial-scale=1.0">\<newline>'',
     ''    <title>GenomeData Table Viewer</title>\<newline>'',
     ''    <meta name="description" content="Research-grade viewer for GenomeData tables.">\<newline>'',
     ''    \<newline>'',
     ''    <!-- Bootstrap Icons (CDN) -->\<newline>'',
     ''    <link rel="stylesheet" href="https://cdn.jsdelivr.net/npm/bootstrap-icons@1.11.0/font/bootstrap-icons.css">\<newline>'',
     ''    \<newline>'',
     ''    <!-- Fonts -->\<newline>'',
     ''    <link href="https://fonts.googleapis.com/css2?family=Inter:wght@400;500;600;700&family=JetBrains+Mono:wght@400;500&display=swap" rel="stylesheet">\<newline>'',
     ''\<newline>'',
     ''    <style>\<newline>'',
     ''        '']\<close>

definition template_style :: string where
  \<comment> \<open>from the stylesheet to the literal of the default configuration\<close>
  \<open>template_style = concat
    [''\<newline>'',
     ''        \<newline>'',
     ''        /* Setup Screen Styles (Inline for immediate rendering) */\<newline>'',
     ''        #setup-screen {\<newline>'',
     ''            position: fixed;\<newline>'',
     ''            top: 0;\<newline>'',
     ''            left: 0;\<newline>'',
     ''            width: 100%;\<newline>'',
     ''            height: 100%;\<newline>'',
     ''            background: var(--ts-bg-page);\<newline>'',
     ''            display: flex;\<newline>'',
     ''            align-items: center;\<newline>'',
     ''            justify-content: center;\<newline>'',
     ''            z-index: 2000;\<newline>'',
     ''        }\<newline>'',
     ''        \<newline>'',
     ''        .setup-card {\<newline>'',
     ''            background: var(--ts-bg-card);\<newline>'',
     ''            padding: 2rem;\<newline>'',
     ''            border-radius: var(--ts-radius-lg);\<newline>'',
     ''            box-shadow: var(--ts-shadow-xl);\<newline>'',
     ''            max-width: 500px;\<newline>'',
     ''            width: 90%;\<newline>'',
     ''            text-align: center;\<newline>'',
     ''            border: 1px solid var(--ts-border);\<newline>'',
     ''        }\<newline>'',
     ''        \<newline>'',
     ''        .drop-zone {\<newline>'',
     ''            border: 2px dashed var(--ts-border);\<newline>'',
     ''            border-radius: var(--ts-radius-md);\<newline>'',
     ''            padding: 2rem;\<newline>'',
     ''            margin: 1rem 0;\<newline>'',
     ''            transition: all 0.2s;\<newline>'',
     ''            background: var(--ts-bg-input);\<newline>'',
     ''            cursor: pointer;\<newline>'',
     ''        }\<newline>'',
     ''        \<newline>'',
     ''        .drop-zone:hover {\<newline>'',
     ''            border-color: var(--ts-primary);\<newline>'',
     ''            background: var(--ts-bg-hover);\<newline>'',
     ''        }\<newline>'',
     ''        \<newline>'',
     ''        .drop-zone.dragover {\<newline>'',
     ''            border-color: var(--ts-primary);\<newline>'',
     ''            background: var(--ts-primary-muted);\<newline>'',
     ''        }\<newline>'',
     ''    </style>\<newline>'',
     ''</head>\<newline>'',
     ''<body>\<newline>'',
     ''    \<newline>'',
     ''    <!-- Setup / Loading Screen -->\<newline>'',
     ''    <div id="setup-screen">\<newline>'',
     ''        <div class="setup-card">\<newline>'',
     ''            <h2 style="margin-top:0; color:var(--ts-primary)">Genome Data Viewer</h2>\<newline>'',
     ''            <p style="color:var(--ts-text-muted)">Research Edition</p>\<newline>'',
     ''            \<newline>'',
     ''            <div id="setup-drop-zone" class="drop-zone">\<newline>'',
     ''                <i class="bi bi-file-earmark-code" style="font-size: 2rem; color: var(--ts-text-dim)"></i>\<newline>'',
     ''                <p style="margin:0.5rem 0 0">Drag & Drop Config File</p>\<newline>'',
     ''            </div>\<newline>'',
     ''            \<newline>'',
     ''            <div style="margin: 1rem 0; position: relative;">\<newline>'',
     ''                <hr style="border: 0; border-top: 1px solid var(--ts-border);">\<newline>'',
     ''                <span style="position: absolute; top: -10px; left: 50%; transform: translateX(-50%); background: var(--ts-bg-card); padding: 0 10px; color: var(--ts-text-dim); font-size: 0.75rem;">OR</span>\<newline>'',
     ''            </div>\<newline>'',
     ''            \<newline>'',
     ''            <button class="ts-btn ts-btn-primary" onclick="document.getElementById('config-input').click()">\<newline>'',
     ''                Load Local Config\<newline>'',
     ''            </button>\<newline>'',
     ''            <input type="file" id="config-input" accept=".json" style="display:none">\<newline>'',
     ''            \<newline>'',
     ''            <div style="margin-top: 1rem">\<newline>'',
     ''                <textarea id="config-paste" class="ts-input" rows="3" placeholder="Paste JSON config here..." style="width:100%; resize: vertical;"></textarea>\<newline>'',
     ''            </div>\<newline>'',
     ''            <button class="ts-btn" style="margin-top: 0.5rem; width: 100%" onclick="loadPastedConfig()">Load JSON</button>\<newline>'',
     ''             <p id="setup-error" style="color: var(--ts-danger); font-size: 0.8rem; margin-top: 1rem; display: none;"></p>\<newline>'',
     ''        </div>\<newline>'',
     ''    </div>\<newline>'',
     ''\<newline>'',
     ''    <!-- Main App Container -->\<newline>'',
     ''    <div id="app" class="ts-app"></div>\<newline>'',
     ''\<newline>'',
     ''    <script>\<newline>'',
     ''        // 1. Embedded Default Config\<newline>'',
     ''        const DEFAULT_CONFIG = '']\<close>

definition template_script :: string where
  \<comment> \<open>from the default configuration to the bundled modules\<close>
  \<open>template_script = concat
    ['';\<newline>'',
     ''        \<newline>'',
     ''        // 2. Bundled Application Logic\<newline>'',
     ''        '']\<close>

definition template_tail :: string where
  \<comment> \<open>the initialisation logic and the end of the document\<close>
  \<open>template_tail = concat
    [''\<newline>'',
     ''\<newline>'',
     ''        // 3. Initialization Logic\<newline>'',
     ''        document.addEventListener('DOMContentLoaded', async () => {\<newline>'',
     ''            const setupScreen = document.getElementById('setup-screen');\<newline>'',
     ''            const fileInput = document.getElementById('config-input');\<newline>'',
     ''            const dropZone = document.getElementById('setup-drop-zone');\<newline>'',
     ''            const pasteArea = document.getElementById('config-paste');\<newline>'',
     ''            const errorMsg = document.getElementById('setup-error');\<newline>'',
     ''            \<newline>'',
     ''            function showError(msg) {\<newline>'',
     ''                errorMsg.textContent = msg;\<newline>'',
     ''                errorMsg.style.display = 'block';\<newline>'',
     ''            }\<newline>'',
     ''\<newline>'',
     ''            async function initApp(config) {\<newline>'',
     ''                try {\<newline>'',
     ''                    const appContainer = document.getElementById('app');\<newline>'',
     ''                    // Initialize renderer\<newline>'',
     ''                    window.renderer = new TableRenderer(config);\<newline>'',
     ''                    await window.renderer.render(appContainer);\<newline>'',
     ''                    \<newline>'',
     ''                    // Hide setup screen with fade\<newline>'',
     ''                    setupScreen.style.opacity = '0';\<newline>'',
     ''                    setTimeout(() => setupScreen.style.display = 'none', 300);\<newline>'',
     ''                } catch (e) {\<newline>'',
     ''                    console.error("Initialization Failed:", e);\<newline>'',
     ''                    showError("Failed to initialize viewer: " + e.message);\<newline>'',
     ''                }\<newline>'',
     ''            }\<newline>'',
     ''\<newline>'',
     ''            // File Loading Logic\<newline>'',
     ''            function handleFile(file) {\<newline>'',
     ''                const reader = new FileReader();\<newline>'',
     ''                reader.onload = (e) => {\<newline>'',
     ''                    try {\<newline>'',
     ''                        const config = JSON.parse(e.target.result);\<newline>'',
     ''                        initApp(config);\<newline>'',
     ''                    } catch (err) {\<newline>'',
     ''                        showError("Invalid JSON file");\<newline>'',
     ''                    }\<newline>'',
     ''                };\<newline>'',
     ''                reader.readAsText(file);\<newline>'',
     ''            }\<newline>'',
     ''\<newline>'',
     ''            // Drag & Drop\<newline>'',
     ''            dropZone.addEventListener('dragover', (e) => {\<newline>'',
     ''                e.preventDefault();\<newline>'',
     ''                dropZone.classList.add('dragover');\<newline>'',
     ''            });\<newline>'',
     ''            dropZone.addEventListener('dragleave', () => dropZone.classList.remove('dragover'));\<newline>'',
     ''            dropZone.addEventListener('drop', (e) => {\<newline>'',
     ''                e.preventDefault();\<newline>'',
     ''                dropZone.classList.remove('dragover');\<newline>'',
     ''                if (e.dataTransfer.files.length) handleFile(e.dataTransfer.files[0]);\<newline>'',
     ''            });\<newline>'',
     ''\<newline>'',
     ''            // Input Change\<newline>'',
     ''            fileInput.addEventListener('change', (e) => {\<newline>'',
     ''                if (e.target.files.length) handleFile(e.target.files[0]);\<newline>'',
     ''            });\<newline>'',
     ''\<newline>'',
     ''            // Global Pasted Config Handler\<newline>'',
     ''            window.loadPastedConfig = () => {\<newline>'',
     ''                try {\<newline>'',
     ''                    const val = pasteArea.value.trim();\<newline>'',
     ''                    if (!val) return;\<newline>'',
     ''                    const config = JSON.parse(val);\<newline>'',
     ''                    initApp(config);\<newline>'',
     ''                } catch (e) {\<newline>'',
     ''                    showError("Invalid JSON text");\<newline>'',
     ''                }\<newline>'',
     ''            };\<newline>'',
     ''            \<newline>'',
     ''            // --- AUTO-LOAD LOGIC ---\<newline>'',
     ''            // 1. Check URL param ?config=...\<newline>'',
     ''            const urlParams = new URLSearchParams(window.location.search);\<newline>'',
     ''            const configUrl = urlParams.get('config');\<newline>'',
     ''            \<newline>'',
     ''            if (configUrl) {\<newline>'',
     ''                try {\<newline>'',
     ''                    const resp = await fetch(configUrl);\<newline>'',
     ''                    if (!resp.ok) throw new Error('Failed to fetch config');\<newline>'',
     ''                    const config = await resp.json();\<newline>'',
     ''                    initApp(config);\<newline>'',
     ''                    return;\<newline>'',
     ''                } catch (e) {\<newline>'',
     ''                    console.warn("URL config failed, trying local...", e);\<newline>'',
     ''                }\<newline>'',
     ''            }\<newline>'',
     ''            \<newline>'',
     ''            // 2. Try fetching local relative config (if served)\<newline>'',
     ''            /*\<newline>'',
     ''            try {\<newline>'',
     ''                const controller = new AbortController();\<newline>'',
     ''                const id = setTimeout(() => controller.abort(), 500); // 500ms timeout\<newline>'',
     ''                const resp = await fetch('configs/genome-data.config.json', { signal: controller.signal });\<newline>'',
     ''                clearTimeout(id);\<newline>'',
     ''                if (resp.ok) {\<newline>'',
     ''                    const config = await resp.json();\<newline>'',
     ''                    initApp(config);\<newline>'',
     ''                    return;\<newline>'',
     ''                }\<newline>'',
     ''            } catch (e) {\<newline>'',
     ''                // Ignore fetch errors (likely file:// protocol)\<newline>'',
     ''            }\<newline>'',
     ''            */\<newline>'',
     ''\<newline>'',
     ''            // 3. Use Embedded Default (Fastest, most robust for this replica)\<newline>'',
     ''            if (DEFAULT_CONFIG) {\<newline>'',
     ''                console.log("Using embedded default config");\<newline>'',
     ''                initApp(DEFAULT_CONFIG);\<newline>'',
     ''            } else {\<newline>'',
     ''                // Stay on setup screen\<newline>'',
     ''            }\<newline>'',
     ''\<newline>'',
     ''        });\<newline>'',
     ''    </script>\<newline>'',
     ''</body>\<newline>'',
     ''</html>\<newline>'']\<close>

definition html_template :: "string \<Rightarrow> string \<Rightarrow> string \<Rightarrow> string" where
  "html_template css_content config_content js_content =
     template_head @ css_content @ template_style @ config_content @ template_script
       @ js_content @ template_tail"

subsection \<open>Bundling the modules and building\<close>

text \<open>
  The loop over the module files, with the text bundled so far and the lines printed so far
  as accumulators. A module that cannot be read raises, and the exception leaves the loop.
\<close>

fun bundle_modules ::
  "filesystem \<Rightarrow> string \<Rightarrow> string list \<Rightarrow> string \<Rightarrow> printed list
     \<Rightarrow> (py_exception \<times> printed list) + (string \<times> printed list)" where
  "bundle_modules fs js_dir [] js_content out = Inr (js_content, out)"
| "bundle_modules fs js_dir (js_file # rest) js_content out =
    (let out1 = out @ [Line (''Bundling '' @ js_file @ ''...'')];
         js1 = js_content @ ''\<newline>/* --- '' @ js_file @ '' --- */\<newline>''
     in case read_file fs (path_join js_dir js_file) of
          Inl e \<Rightarrow> Inl (e, out1)
        | Inr text \<Rightarrow> bundle_modules fs js_dir rest (js1 @ text @ ''\<newline>'') out1)"

text \<open>
  The body of the \<open>try\<close> block: read the configuration, then validate it. Either step can
  raise.
\<close>

definition read_config :: "filesystem \<Rightarrow> string \<Rightarrow> py_exception + string" where
  "read_config fs ROOT_DIR =
    (case read_file fs (CONFIG_PATH ROOT_DIR) of
       Inl e \<Rightarrow> Inl e
     | Inr config_content \<Rightarrow>
         (case json_loads config_content of
            None \<Rightarrow> Inl (JSONDecodeError config_content)
          | Some v \<Rightarrow> Inr config_content))"

text \<open>
  How a run of \<open>build\<close> ends: it returns, or an exception leaves it. The script calls
  \<open>build()\<close> and nothing else, so the interpreter exits with status 0 in the first case and
  with status 1, after a traceback, in the second.
\<close>

datatype completion = Returned | Raised py_exception

record run_result =
  completion :: completion
  disk :: filesystem
  stdout :: "printed list"

definition exit_status :: "completion \<Rightarrow> nat" where
  "exit_status c = (case c of Returned \<Rightarrow> 0 | Raised e \<Rightarrow> 1)"

text \<open>
  \<open>build\<close>, for any list of module files; the script's own list is \<open>js_files\<close>.
\<close>

definition build_with :: "string list \<Rightarrow> string \<Rightarrow> filesystem \<Rightarrow> run_result" where
  "build_with modules ROOT_DIR fs =
    (let out0 = [Line ''Building viewer.html...'',
                 Line (''Reading CSS from '' @ CSS_PATH ROOT_DIR @ ''...'')]
     in case read_file fs (CSS_PATH ROOT_DIR) of
          Inl e \<Rightarrow> \<lparr>completion = Raised e, disk = fs, stdout = out0\<rparr>
        | Inr css_content \<Rightarrow>
            (let out1 = out0 @ [Line (''Reading Config from '' @ CONFIG_PATH ROOT_DIR @ ''...'')]
             in case read_config fs ROOT_DIR of
                  Inl e \<Rightarrow>
                    \<lparr>completion = Returned, disk = fs,
                     stdout = out1 @ [Report ''Error reading config: '' e]\<rparr>
                | Inr config_content \<Rightarrow>
                    (case bundle_modules fs (JS_DIR ROOT_DIR) modules [] out1 of
                       Inl (e, out2) \<Rightarrow> \<lparr>completion = Raised e, disk = fs, stdout = out2\<rparr>
                     | Inr (js_content, out2) \<Rightarrow>
                         (case write_file fs (OUTPUT_FILE ROOT_DIR)
                                 (html_template css_content config_content js_content) of
                            Inl e \<Rightarrow> \<lparr>completion = Raised e, disk = fs, stdout = out2\<rparr>
                          | Inr fs' \<Rightarrow>
                              \<lparr>completion = Returned, disk = fs',
                               stdout = out2 @
                                 [Line (''Successfully generated '' @ OUTPUT_FILE ROOT_DIR)]\<rparr>))))"

definition build :: "string \<Rightarrow> filesystem \<Rightarrow> run_result" where
  "build ROOT_DIR fs = build_with js_files ROOT_DIR fs"

section \<open>The page: the bootstrap logic of the generated document\<close>

subsection \<open>State and collaborators\<close>

text \<open>
  What the initialisation logic reads and writes: the inline style of the setup screen, the
  highlight of the drop zone, the error paragraph, the console, \<open>window.renderer\<close> (kept as
  the configuration its engine was constructed with), and the callbacks that \<open>setTimeout\<close>
  has scheduled and that have not run yet (each of them sets the display of the setup screen
  to \<open>none\<close>). \<open>engine_calls\<close> records the arguments of \<open>new TableRenderer(...)\<close>, in order.
\<close>

datatype thrown = Error string | SyntaxError

datatype level = LOG | WARN | ERROR

record page =
  setup_opacity :: string
  setup_display :: string
  dragover :: bool
  error_text :: string
  error_display :: string
  console :: "(level \<times> string \<times> thrown option) list"
  renderer :: "json option"
  engine_calls :: "json list"
  timers :: nat

text \<open>The document as the browser has parsed it, before any script has run.\<close>

definition initial_page :: page where
  "initial_page =
    \<lparr>setup_opacity = [], setup_display = [], dragover = False,
     error_text = [], error_display = ''none'', console = [],
     renderer = None, engine_calls = [], timers = 0\<rparr>"

text \<open>
  The rendering engine (\<open>TableRenderer\<close>, one of the bundled modules) is a parameter: given a
  configuration, its constructor throws, or its \<open>render\<close> rejects, or \<open>render\<close> resolves.
  Both failures are \<open>Error\<close> objects, which carry a message. The network is a parameter too:
  \<open>fetch\<close> rejects, or resolves with a response that has a status flag \<open>ok\<close> and a body.
  A file handed to \<open>FileReader.readAsText\<close> is read, or the read fails and \<open>onload\<close> never
  fires.

  Every handler is modelled as running to its end before the next event: an \<open>await\<close> has
  resolved or rejected by the time the function that follows it in the model is applied.
\<close>

datatype engine_outcome = ConstructThrows string | RenderRejects string | RenderResolves

datatype fetch_result = Rejected string | Response bool string

datatype file_blob = Readable string | Unread

subsection \<open>Rendering handoff\<close>

definition showError :: "string \<Rightarrow> page \<Rightarrow> page" where
  "showError msg p = p\<lparr>error_text := msg, error_display := ''block''\<rparr>"

text \<open>The \<open>catch\<close> block of \<open>initApp\<close>, for an exception with message \<open>m\<close>.\<close>

definition initApp_catch :: "string \<Rightarrow> page \<Rightarrow> page" where
  "initApp_catch m p =
    showError (''Failed to initialize viewer: '' @ m)
      (p\<lparr>console := console p @ [(ERROR, ''Initialization Failed:'', Some (Error m))]\<rparr>)"

definition initApp :: "(json \<Rightarrow> engine_outcome) \<Rightarrow> json \<Rightarrow> page \<Rightarrow> page" where
  "initApp engine config p =
    (let p1 = p\<lparr>engine_calls := engine_calls p @ [config]\<rparr>
     in case engine config of
          ConstructThrows m \<Rightarrow> initApp_catch m p1
        | RenderRejects m \<Rightarrow> initApp_catch m (p1\<lparr>renderer := Some config\<rparr>)
        | RenderResolves \<Rightarrow>
            p1\<lparr>renderer := Some config, setup_opacity := ''0'', timers := Suc (timers p1)\<rparr>)"

subsection \<open>The setup surface\<close>

definition handleFile :: "(json \<Rightarrow> engine_outcome) \<Rightarrow> file_blob \<Rightarrow> page \<Rightarrow> page" where
  "handleFile engine f p =
    (case f of
       Unread \<Rightarrow> p
     | Readable text \<Rightarrow>
         (case JSON_parse text of
            None \<Rightarrow> showError ''Invalid JSON file'' p
          | Some config \<Rightarrow> initApp engine config p))"

text \<open>
  \<open>String.prototype.trim\<close> removes white space and line terminators from both ends; below
  code point 256 these are the characters 9 to 13, the space and the no-break space.
\<close>

definition js_whitespace :: "char \<Rightarrow> bool" where
  "js_whitespace c \<longleftrightarrow>
     ((9::nat) \<le> of_char c \<and> of_char c \<le> (13::nat)) \<or> c = CHR 0x20 \<or> c = CHR 0xA0"

definition js_trim :: "string \<Rightarrow> string" where
  "js_trim s = rev (dropWhile js_whitespace (rev (dropWhile js_whitespace s)))"

text \<open>\<open>window.loadPastedConfig\<close>; the argument \<open>pasted\<close> is \<open>pasteArea.value\<close> at the click.\<close>

definition loadPastedConfig :: "(json \<Rightarrow> engine_outcome) \<Rightarrow> string \<Rightarrow> page \<Rightarrow> page" where
  "loadPastedConfig engine pasted p =
    (let val = js_trim pasted
     in if val = [] then p
        else (case JSON_parse val of
                None \<Rightarrow> showError ''Invalid JSON text'' p
              | Some config \<Rightarrow> initApp engine config p))"

text \<open>
  The events after load: the three drag events of the drop zone, the change of the file
  input, the click on the button that calls \<open>loadPastedConfig\<close>, and a timer that fires.
  A drop and a change carry the list of files of the event.
\<close>

datatype event =
    DragOver
  | DragLeave
  | Drop "file_blob list"
  | Change "file_blob list"
  | LoadJSON string
  | Timeout

fun step :: "(json \<Rightarrow> engine_outcome) \<Rightarrow> event \<Rightarrow> page \<Rightarrow> page" where
  "step engine DragOver p = p\<lparr>dragover := True\<rparr>"
| "step engine DragLeave p = p\<lparr>dragover := False\<rparr>"
| "step engine (Drop files) p =
    (case files of
       [] \<Rightarrow> p\<lparr>dragover := False\<rparr>
     | f # rest \<Rightarrow> handleFile engine f (p\<lparr>dragover := False\<rparr>))"
| "step engine (Change files) p =
    (case files of
       [] \<Rightarrow> p
     | f # rest \<Rightarrow> handleFile engine f p)"
| "step engine (LoadJSON pasted) p = loadPastedConfig engine pasted p"
| "step engine Timeout p =
    (if timers p = 0 then p else p\<lparr>setup_display := ''none'', timers := timers p - 1\<rparr>)"

fun run :: "(json \<Rightarrow> engine_outcome) \<Rightarrow> event list \<Rightarrow> page \<Rightarrow> page" where
  "run engine [] p = p"
| "run engine (ev # evs) p = run engine evs (step engine ev p)"

subsection \<open>Resolution on load\<close>

text \<open>The \<open>try\<close> block of the URL branch: fetch, check the status, parse the body.\<close>

definition fetch_config :: "(string \<Rightarrow> fetch_result) \<Rightarrow> string \<Rightarrow> thrown + json" where
  "fetch_config fetch configUrl =
    (case fetch configUrl of
       Rejected m \<Rightarrow> Inl (Error m)
     | Response ok body \<Rightarrow>
         if \<not> ok then Inl (Error ''Failed to fetch config'')
         else (case JSON_parse body of
                 None \<Rightarrow> Inl SyntaxError
               | Some config \<Rightarrow> Inr config))"

text \<open>
  Step 3 of the auto-load logic: the embedded default, when it is truthy. \<open>DEFAULT_CONFIG\<close>
  is the value of the constant as the script has it, a parameter here: the build puts the
  text of the configuration file into the script element unchanged, and what value the
  browser reads from it is not part of this model.
\<close>

definition use_embedded :: "(json \<Rightarrow> engine_outcome) \<Rightarrow> json \<Rightarrow> page \<Rightarrow> page" where
  "use_embedded engine DEFAULT_CONFIG p =
    (if js_truthy DEFAULT_CONFIG then
       initApp engine DEFAULT_CONFIG
         (p\<lparr>console := console p @ [(LOG, ''Using embedded default config'', None)]\<rparr>)
     else p)"

text \<open>
  The listener of \<open>DOMContentLoaded\<close>. \<open>configUrl\<close> is the result of
  \<open>urlParams.get('config')\<close>: \<open>None\<close> for \<open>null\<close> (no such parameter). The test
  \<open>if (configUrl)\<close> fails for \<open>null\<close> and for the empty string.
\<close>

definition DOMContentLoaded ::
  "(json \<Rightarrow> engine_outcome) \<Rightarrow> (string \<Rightarrow> fetch_result) \<Rightarrow> string option \<Rightarrow> json
     \<Rightarrow> page \<Rightarrow> page" where
  "DOMContentLoaded engine fetch configUrl DEFAULT_CONFIG p =
    (case configUrl of
       None \<Rightarrow> use_embedded engine DEFAULT_CONFIG p
     | Some url \<Rightarrow>
         if url = [] then use_embedded engine DEFAULT_CONFIG p
         else
           (case fetch_config fetch url of
              Inr config \<Rightarrow> initApp engine config p
            | Inl e \<Rightarrow>
                use_embedded engine DEFAULT_CONFIG
                  (p\<lparr>console := console p @
                        [(WARN, ''URL config failed, trying local...'', Some e)]\<rparr>)))"

subsection \<open>The bootstrap state\<close>

text \<open>
  The code keeps no state variable; the state of the specification is read off the page.
  The setup surface is on screen until a render has succeeded, which sets its opacity to
  \<open>0\<close> (and, when the timer fires, its display to \<open>none\<close>). Of the four states of the
  specification, \<open>Resolving\<close> and \<open>RenderFailed\<close> are passed through inside a handler and
  are never the state between two events.
\<close>

datatype bootstrap_state = Resolving | SetupVisible | Rendering | RenderFailed

definition setup_shown :: "page \<Rightarrow> bool" where
  "setup_shown p \<longleftrightarrow> setup_opacity p \<noteq> ''0'' \<and> setup_display p \<noteq> ''none''"

definition bootstrap_state :: "page \<Rightarrow> bootstrap_state" where
  "bootstrap_state p = (if setup_shown p then SetupVisible else Rendering)"

text \<open>
  An event that supplies a text which parses: the first file of a drop or of a change, or
  the trimmed text of the paste area.
\<close>

fun supplies_config :: "event \<Rightarrow> bool" where
  "supplies_config (Drop (Readable text # rest)) = (JSON_parse text \<noteq> None)"
| "supplies_config (Change (Readable text # rest)) = (JSON_parse text \<noteq> None)"
| "supplies_config (LoadJSON pasted) = (JSON_parse (js_trim pasted) \<noteq> None)"
| "supplies_config ev = False"

subsection \<open>The text inside the script element\<close>

text \<open>
  The configuration text stands inside a script element. An end tag or a comment, which
  would cut the script short, begins with the character \<open><\<close>; \<open>no_lt\<close> says that a text
  holds none.
\<close>

definition no_lt :: "string \<Rightarrow> bool" where
  "no_lt s \<longleftrightarrow> CHR ''<'' \<notin> set s"

section \<open>Example inputs\<close>

text \<open>
  File systems for the script at \<open>/repo\<close>: one with a stylesheet and nothing else; one
  with nothing at all; one whose configuration file holds the text \<open>null\<close>, every other
  file being empty and the output not yet there; one whose configuration file holds
  \<open>null\<close> and a newline; one with two modules; one whose configuration file is not JSON.
\<close>

definition fs_without_config :: filesystem where
  "fs_without_config =
    \<lparr>nodes = (\<lambda>path. if path = ''/repo/css/table-renderer.css'' then File ''body {}''
                      else Absent),
     writable = (\<lambda>path. True)\<rparr>"

definition fs_nothing :: filesystem where
  "fs_nothing = \<lparr>nodes = (\<lambda>path. Absent), writable = (\<lambda>path. True)\<rparr>"


definition fs_null_newline :: filesystem where
  "fs_null_newline =
    \<lparr>nodes = (\<lambda>path. if path = ''/repo/configs/genome-data.config.json''
                        then File ''null\<newline>''
                      else File []),
     writable = (\<lambda>path. True)\<rparr>"

definition fs_two_modules :: filesystem where
  "fs_two_modules =
    \<lparr>nodes = (\<lambda>path. if path = ''/repo/js/a.js'' then File ''A''
                      else if path = ''/repo/js/b.js'' then File ''B''
                      else File ''{}''),
     writable = (\<lambda>path. True)\<rparr>"

definition fs_broken_config :: filesystem where
  \<open>fs_broken_config =
    \<lparr>nodes = (\<lambda>path. if path = ''/repo/configs/genome-data.config.json'' then File ''{"a":}''
                      else File []),
     writable = (\<lambda>path. True)\<rparr>\<close>

section \<open>Properties\<close>

subsection \<open>The fuel of the parser\<close>

text \<open>
  The parser of a document never runs out of fuel: every value, list of elements and list
  of members consumes a character, so the calls nest at most twice as deep as the text is
  long, and the result with the fuel of \<open>json_document\<close> is the result with any larger
  fuel.
\<close>

lemma skip_ws_length: "length (skip_ws s) \<le> length s"
  by (simp add: skip_ws_def length_dropWhile_le)

lemma skip_ws_Cons:
  assumes "skip_ws s = c # r"
  shows "length r < length s"
proof -
  have "length (skip_ws s) \<le> length s" by (rule skip_ws_length)
  with assms show ?thesis by simp
qed

lemma strip_prefix_length:
  assumes "strip_prefix p s = Some r"
  shows "length s = length p + length r"
  using assms by (induction p s rule: strip_prefix.induct) (auto split: if_splits)

lemma scan_string_length:
  assumes "scan_string cs = Some (x, r)"
  shows "length r < length cs"
  using assms
proof (induction cs arbitrary: x r rule: scan_string.induct)
  case 1
  then show ?case by simp
next
  case (2 c cs)
  show ?case
  proof (cases "c = CHR 0x22")
    case True
    with "2.prems" show ?thesis by simp
  next
    case notq: False
    show ?thesis
    proof (cases "c = CHR 0x5C")
      case True
      show ?thesis
      proof (cases cs)
        case Nil
        with "2.prems" notq True show ?thesis by simp
      next
        case (Cons e r0)
        show ?thesis
        proof (cases "e \<in> set [CHR 0x22, CHR 0x5C, CHR ''/'', CHR ''b'', CHR ''f'', CHR ''n'', CHR ''r'', CHR ''t'']")
          case esc: True
          with "2.prems" notq True Cons obtain x' where "scan_string r0 = Some (x', r)"
            by (auto split: option.splits)
          with "2.IH"(1) [OF notq True Cons esc] have "length r < length r0" by blast
          with Cons show ?thesis by simp
        next
          case noesc: False
          show ?thesis
          proof (cases "e = CHR ''u'' \<and> 4 \<le> length r0 \<and> list_all is_hex (take 4 r0)")
            case u: True
            with "2.prems" notq True Cons noesc obtain x' where
              "scan_string (drop 4 r0) = Some (x', r)"
              by (auto split: option.splits)
            with "2.IH"(2) [OF notq True Cons noesc u] have "length r < length (drop 4 r0)"
              by blast
            with Cons show ?thesis by simp
          next
            case False
            with "2.prems" notq True Cons noesc show ?thesis by auto
          qed
        qed
      qed
    next
      case notb: False
      show ?thesis
      proof (cases "of_char c < (32::nat)")
        case True
        with "2.prems" notq notb show ?thesis by simp
      next
        case False
        with "2.prems" notq notb obtain x' where "scan_string cs = Some (x', r)"
          by (auto split: option.splits)
        with "2.IH"(3) [OF notq notb False] have "length r < length cs" by blast
        then show ?thesis by simp
      qed
    qed
  qed
qed

lemma scan_int_part_length:
  assumes "scan_int_part s = Some (i, r)"
  shows "length r < length s"
proof (cases s)
  case Nil
  with assms show ?thesis by (simp add: scan_int_part_def)
next
  case (Cons c cs)
  have "length (dropWhile is_digit cs) \<le> length cs"
    by (rule length_dropWhile_le)
  with assms Cons show ?thesis
    by (auto simp: scan_int_part_def split: if_splits)
qed

lemma scan_frac_part_length: "length (snd (scan_frac_part s)) \<le> length s"
proof (cases s)
  case Nil
  then show ?thesis by (simp add: scan_frac_part_def)
next
  case (Cons c cs)
  have "length (dropWhile is_digit cs) \<le> length cs"
    by (rule length_dropWhile_le)
  with Cons show ?thesis
    by (simp add: scan_frac_part_def)
qed

lemma scan_exp_part_length: "length (snd (scan_exp_part s)) \<le> length s"
proof (cases s)
  case Nil
  then show ?thesis by (simp add: scan_exp_part_def)
next
  case (Cons c cs)
  have a: "length (dropWhile is_digit cs) \<le> length cs"
    by (rule length_dropWhile_le)
  have "length (dropWhile is_digit (tl cs)) \<le> length (tl cs)"
    by (rule length_dropWhile_le)
  then have b: "length (dropWhile is_digit (tl cs)) \<le> length cs"
    by simp
  from Cons a b show ?thesis
    by (simp add: scan_exp_part_def Let_def)
qed

lemma scan_number_length:
  assumes "scan_number s = Some (q, r)"
  shows "length r < length s"
proof -
  define s1 where "s1 = (if s \<noteq> [] \<and> hd s = CHR ''-'' then tl s else s)"
  have l1: "length s1 \<le> length s"
    by (simp add: s1_def)
  from assms obtain i s2 where i: "scan_int_part s1 = Some (i, s2)"
    and r: "r = snd (scan_exp_part (snd (scan_frac_part s2)))"
    by (auto simp: scan_number_def Let_def s1_def split: option.splits prod.splits)
  have "length r \<le> length (snd (scan_frac_part s2))"
    unfolding r by (rule scan_exp_part_length)
  also have "\<dots> \<le> length s2"
    by (rule scan_frac_part_length)
  also have "\<dots> < length s1"
    using i by (rule scan_int_part_length)
  finally show ?thesis using l1 by simp
qed

lemma parse_atom_length:
  assumes "parse_atom ext s = Some (v, r)"
  shows "length r < length s"
proof -
  from assms have
    "(\<exists>p. p \<noteq> [] \<and> strip_prefix p s = Some r) \<or> (\<exists>q. scan_number s = Some (q, r))"
    unfolding parse_atom_def
    by (auto split: option.splits if_splits)
  then show ?thesis
  proof
    assume "\<exists>p. p \<noteq> [] \<and> strip_prefix p s = Some r"
    then obtain p where "p \<noteq> []" "strip_prefix p s = Some r" by blast
    with strip_prefix_length [of p s r] show ?thesis by simp
  next
    assume "\<exists>q. scan_number s = Some (q, r)"
    then obtain q where "scan_number s = Some (q, r)" by blast
    then show ?thesis by (rule scan_number_length)
  qed
qed

text \<open>Every value, every list of elements and every list of members takes at least one
  character.\<close>

lemma parse_consumes:
  "(\<forall>s v r. parse_value ext n s = Some (v, r) \<longrightarrow> length r < length s)
 \<and> (\<forall>s vs r. parse_elements ext n s = Some (vs, r) \<longrightarrow> length r < length s)
 \<and> (\<forall>s ms r. parse_members ext n s = Some (ms, r) \<longrightarrow> length r < length s)"
proof (induction n)
  case 0
  show ?case by simp
next
  case (Suc n)
  have pv: "length r < length s" if "parse_value ext (Suc n) s = Some (v, r)" for s v r
  proof (cases "skip_ws s")
    case Nil
    with that show ?thesis by simp
  next
    case (Cons c t)
    note ct = skip_ws_Cons [OF Cons]
    show ?thesis
    proof (cases "c = CHR 0x22")
      case True
      with that Cons obtain x where "scan_string t = Some (x, r)"
        by (auto split: option.splits)
      from scan_string_length [OF this] ct show ?thesis by simp
    next
      case nq: False
      show ?thesis
      proof (cases "c = CHR ''{'' \<or> c = CHR ''[''")
        case True
        show ?thesis
        proof (cases "skip_ws t")
          case Nil
          with that Cons nq True show ?thesis by auto
        next
          case inner: (Cons d u)
          note du = skip_ws_Cons [OF inner]
          show ?thesis
          proof (cases "c = CHR ''{''")
            case obj: True
            show ?thesis
            proof (cases "d = CHR ''}''")
              case True
              with that Cons nq obj inner have "r = u" by simp
              with du ct show ?thesis by simp
            next
              case False
              with that Cons nq obj inner obtain ms where
                "parse_members ext n (d # u) = Some (ms, r)"
                by (auto split: option.splits)
              with Suc.IH have "length r < length (d # u)" by blast
              with du ct show ?thesis by simp
            qed
          next
            case noobj: False
            with True have arr: "c = CHR ''[''" by simp
            show ?thesis
            proof (cases "d = CHR '']''")
              case True
              with that Cons nq noobj arr inner have "r = u" by simp
              with du ct show ?thesis by simp
            next
              case False
              with that Cons nq noobj arr inner obtain vs where
                "parse_elements ext n (d # u) = Some (vs, r)"
                by (auto split: option.splits)
              with Suc.IH have "length r < length (d # u)" by blast
              with du ct show ?thesis by simp
            qed
          qed
        qed
      next
        case False
        then have nb: "c \<noteq> CHR ''{''" "c \<noteq> CHR ''[''" by simp_all
        have whole: "length (c # t) \<le> length s"
          using skip_ws_length [of s] Cons by simp
        from that Cons nq nb have "parse_atom ext (c # t) = Some (v, r)"
          by simp
        from parse_atom_length [OF this] whole show ?thesis by simp
      qed
    qed
  qed
  have pe: "length r < length s" if "parse_elements ext (Suc n) s = Some (vs, r)"
    for s vs r
  proof -
    from that obtain v r1 where v: "parse_value ext n s = Some (v, r1)"
      by (auto split: option.splits)
    with Suc.IH have l1: "length r1 < length s" by blast
    from that v obtain c r2 where c: "skip_ws r1 = c # r2"
      by (auto split: list.splits)
    note l2 = skip_ws_Cons [OF c]
    show ?thesis
    proof (cases "c = CHR '']''")
      case True
      with that v c have "r = r2" by simp
      with l1 l2 show ?thesis by simp
    next
      case False
      with that v c obtain vs' where "parse_elements ext n r2 = Some (vs', r)"
        by (auto split: option.splits if_splits)
      with Suc.IH have "length r < length r2" by blast
      with l1 l2 show ?thesis by simp
    qed
  qed
  have pm: "length r < length s" if "parse_members ext (Suc n) s = Some (ms, r)"
    for s ms r
  proof -
    from that obtain q t where q: "skip_ws s = q # t"
      by (auto split: list.splits)
    note l0 = skip_ws_Cons [OF q]
    from that q obtain k r1 where k: "scan_string t = Some (k, r1)"
      by (auto split: option.splits if_splits)
    note l1 = scan_string_length [OF k]
    from that q k obtain c r2 where c: "skip_ws r1 = c # r2"
      by (auto split: list.splits if_splits)
    note l2 = skip_ws_Cons [OF c]
    from that q k c obtain v r3 where v: "parse_value ext n r2 = Some (v, r3)"
      by (auto split: option.splits if_splits)
    with Suc.IH have l3: "length r3 < length r2" by blast
    from that q k c v obtain d r4 where d: "skip_ws r3 = d # r4"
      by (auto split: list.splits if_splits)
    note l4 = skip_ws_Cons [OF d]
    show ?thesis
    proof (cases "d = CHR ''}''")
      case True
      with that q k c v d have "r = r4" by (auto split: if_splits)
      with l0 l1 l2 l3 l4 show ?thesis by simp
    next
      case False
      with that q k c v d obtain ms' where "parse_members ext n r4 = Some (ms', r)"
        by (auto split: option.splits if_splits)
      with Suc.IH have "length r < length r4" by blast
      with l0 l1 l2 l3 l4 show ?thesis by simp
    qed
  qed
  from pv pe pm show ?case by blast
qed

text \<open>Beyond twice the length of the text, more fuel changes nothing.\<close>

lemma fuel_stable:
  "(\<forall>s. 2 * length s \<le> n \<longrightarrow> parse_value ext (Suc n) s = parse_value ext n s)
 \<and> (\<forall>s. 2 * length s + 1 \<le> n \<longrightarrow> parse_elements ext (Suc n) s = parse_elements ext n s)
 \<and> (\<forall>s. 2 * length s + 1 \<le> n \<longrightarrow> parse_members ext (Suc n) s = parse_members ext n s)"
proof (induction n)
  case 0
  have "parse_value ext (Suc 0) [] = parse_value ext 0 []"
    by (simp add: skip_ws_def)
  then show ?case by simp
next
  case (Suc n)
  have pv: "parse_value ext (Suc (Suc n)) s = parse_value ext (Suc n) s"
    if le: "2 * length s \<le> Suc n" for s
  proof (cases "skip_ws s")
    case Nil
    then show ?thesis by (simp only: parse_value.simps(2) [of ext "Suc n" s] parse_value.simps(2) [of ext n s] list.case)
  next
    case (Cons c t)
    note ct = skip_ws_Cons [OF Cons]
    show ?thesis
    proof (cases "skip_ws t")
      case Nil
      with Cons show ?thesis by (simp only: parse_value.simps(2) [of ext "Suc n" s] parse_value.simps(2) [of ext n s] list.case)
    next
      case inner: (Cons d u)
      note du = skip_ws_Cons [OF inner]
      from le ct du have "2 * length (d # u) + 1 \<le> n" by simp
      with Suc.IH have
        e: "parse_elements ext (Suc n) (d # u) = parse_elements ext n (d # u)"
           "parse_members ext (Suc n) (d # u) = parse_members ext n (d # u)"
        by blast+
      from Cons inner show ?thesis
        by (simp only: parse_value.simps(2) [of ext "Suc n" s] parse_value.simps(2) [of ext n s] list.case e)
    qed
  qed
  have pe: "parse_elements ext (Suc (Suc n)) s = parse_elements ext (Suc n) s"
    if le: "2 * length s + 1 \<le> Suc n" for s
  proof -
    from le Suc.IH have v: "parse_value ext (Suc n) s = parse_value ext n s" by simp
    show ?thesis
    proof (cases "parse_value ext n s")
      case None
      with v show ?thesis by (simp only: parse_elements.simps(2) [of ext "Suc n" s] parse_elements.simps(2) [of ext n s] option.case)
    next
      case (Some a)
      obtain v1 r1 where a: "a = (v1, r1)" by (cases a)
      from Some a parse_consumes [of ext n] have l1: "length r1 < length s" by blast
      show ?thesis
      proof (cases "skip_ws r1")
        case Nil
        with v Some a show ?thesis
          by (simp only: parse_elements.simps(2) [of ext "Suc n" s] parse_elements.simps(2) [of ext n s] option.case prod.case list.case)
      next
        case (Cons c r2)
        note l2 = skip_ws_Cons [OF Cons]
        from le l1 l2 have "2 * length r2 + 1 \<le> n" by simp
        with Suc.IH have e: "parse_elements ext (Suc n) r2 = parse_elements ext n r2"
          by blast
        from v Some a Cons show ?thesis
          by (simp only: parse_elements.simps(2) [of ext "Suc n" s] parse_elements.simps(2) [of ext n s] option.case prod.case list.case e)
      qed
    qed
  qed
  have pm: "parse_members ext (Suc (Suc n)) s = parse_members ext (Suc n) s"
    if le: "2 * length s + 1 \<le> Suc n" for s
  proof (cases "skip_ws s")
    case Nil
    then show ?thesis by (simp only: parse_members.simps(2) [of ext "Suc n" s] parse_members.simps(2) [of ext n s] list.case)
  next
    case (Cons q t)
    note l0 = skip_ws_Cons [OF Cons]
    show ?thesis
    proof (cases "scan_string t")
      case None
      with Cons show ?thesis by (simp only: parse_members.simps(2) [of ext "Suc n" s] parse_members.simps(2) [of ext n s] list.case option.case)
    next
      case (Some a)
      obtain k r1 where a: "a = (k, r1)" by (cases a)
      from Some a have l1: "length r1 < length t" by (simp add: scan_string_length)
      show ?thesis
      proof (cases "skip_ws r1")
        case Nil
        with Cons Some a show ?thesis
          by (simp only: parse_members.simps(2) [of ext "Suc n" s] parse_members.simps(2) [of ext n s] list.case option.case prod.case)
      next
        case colon: (Cons c r2)
        note l2 = skip_ws_Cons [OF colon]
        from le l0 l1 l2 have "2 * length r2 \<le> n" by simp
        with Suc.IH have v: "parse_value ext (Suc n) r2 = parse_value ext n r2" by blast
        show ?thesis
        proof (cases "parse_value ext n r2")
          case None
          with Cons Some a colon v show ?thesis
            by (simp only: parse_members.simps(2) [of ext "Suc n" s] parse_members.simps(2) [of ext n s] list.case option.case prod.case)
        next
          case val: (Some b)
          obtain v1 r3 where b: "b = (v1, r3)" by (cases b)
          from val b parse_consumes [of ext n] have l3: "length r3 < length r2" by blast
          show ?thesis
          proof (cases "skip_ws r3")
            case Nil
            with Cons Some a colon v val b show ?thesis
              by (simp only: parse_members.simps(2) [of ext "Suc n" s] parse_members.simps(2) [of ext n s] list.case option.case prod.case)
          next
            case sep: (Cons d r4)
            note l4 = skip_ws_Cons [OF sep]
            from le l0 l1 l2 l3 l4 have "2 * length r4 + 1 \<le> n" by simp
            with Suc.IH have e: "parse_members ext (Suc n) r4 = parse_members ext n r4"
              by blast
            from Cons Some a colon v val b sep show ?thesis
              by (simp only: parse_members.simps(2) [of ext "Suc n" s] parse_members.simps(2) [of ext n s] list.case option.case prod.case e)
          qed
        qed
      qed
    qed
  qed
  from pv pe pm show ?case by blast
qed

lemma parse_value_fuel:
  assumes "2 * length s \<le> n"
  shows "parse_value ext (n + k) s = parse_value ext n s"
proof (induction k)
  case 0
  show ?case by simp
next
  case (Suc k)
  from assms have "2 * length s \<le> n + k" by simp
  with fuel_stable [of "n + k" ext] have
    "parse_value ext (Suc (n + k)) s = parse_value ext (n + k) s" by blast
  with Suc show ?case by simp
qed

lemma json_document_fuel:
  assumes "2 * length s + 2 \<le> n"
  shows "parse_value ext n s = parse_value ext (2 * length s + 2) s"
proof -
  from assms obtain k where n: "n = 2 * length s + k"
    using le_Suc_ex [of "2 * length s" n] by auto
  have "parse_value ext (2 * length s + k) s = parse_value ext (2 * length s) s"
    by (rule parse_value_fuel) simp
  moreover have "parse_value ext (2 * length s + 2) s = parse_value ext (2 * length s) s"
    by (rule parse_value_fuel) simp
  ultimately show ?thesis using n by simp
qed

subsection \<open>Trimming and the empty text\<close>

lemma dropWhile_all: "dropWhile P xs = [] \<longleftrightarrow> (\<forall>x\<in>set xs. P x)"
  by (induction xs) auto

lemma dropWhile_rest_all:
  assumes "\<forall>x\<in>set (dropWhile P xs). P x"
  shows "\<forall>x\<in>set xs. P x"
  using assms
proof (induction xs)
  case Nil
  then show ?case by simp
next
  case (Cons x xs)
  show ?case
  proof (cases "P x")
    case True
    with Cons.prems have "\<forall>x\<in>set (dropWhile P xs). P x" by simp
    then have "\<forall>x\<in>set xs. P x" by (rule Cons.IH)
    with True show ?thesis by simp
  next
    case False
    with Cons.prems show ?thesis by simp
  qed
qed

lemma js_trim_empty_iff: "js_trim s = [] \<longleftrightarrow> (\<forall>c\<in>set s. js_whitespace c)"
proof
  assume "js_trim s = []"
  then have "dropWhile js_whitespace (rev (dropWhile js_whitespace s)) = []"
    by (simp only: js_trim_def rev_is_Nil_conv)
  then have "\<forall>c\<in>set (rev (dropWhile js_whitespace s)). js_whitespace c"
    by (simp only: dropWhile_all)
  then have "\<forall>c\<in>set (dropWhile js_whitespace s). js_whitespace c"
    by (simp only: set_rev)
  then show "\<forall>c\<in>set s. js_whitespace c"
    by (rule dropWhile_rest_all)
next
  assume "\<forall>c\<in>set s. js_whitespace c"
  then have "dropWhile js_whitespace s = []"
    by (simp only: dropWhile_all)
  then show "js_trim s = []"
    by (simp only: js_trim_def rev.simps dropWhile.simps)
qed

lemma JSON_parse_empty: "JSON_parse [] = None"
  by (simp add: JSON_parse_def json_document_def skip_ws_def)

subsection \<open>The paste area\<close>

text \<open>
  C9. Committing the paste area with a text that is empty or holds white space only does
  nothing: the page is returned as it was, whatever the engine would do, and no error is
  shown. The guard is what stops the handler, not a parse that succeeded: the trimmed text is
  empty, and the empty text is not JSON, so a parse attempt would have ended in the error
  message. Any other pasted text whose trimmed form does not parse does show the inline
  error.
\<close>

theorem paste_blank_is_noop:
  assumes blank: "\<forall>c\<in>set pasted. js_whitespace c"
    and other: "js_trim other \<noteq> []" "JSON_parse (js_trim other) = None"
  shows "loadPastedConfig engine pasted p = p
       \<and> JSON_parse (js_trim pasted) = None
       \<and> loadPastedConfig engine other p = showError ''Invalid JSON text'' p
       \<and> error_display (loadPastedConfig engine other p) = ''block''"
proof -
  from blank have t: "js_trim pasted = []"
    by (simp add: js_trim_empty_iff)
  have a: "loadPastedConfig engine pasted p = p"
    by (simp add: loadPastedConfig_def t)
  have b: "JSON_parse (js_trim pasted) = None"
    by (simp add: t JSON_parse_empty)
  have c: "loadPastedConfig engine other p = showError ''Invalid JSON text'' p"
    using other by (simp add: loadPastedConfig_def)
  have d: "error_display (showError ''Invalid JSON text'' p) = ''block''"
    by (simp add: showError_def)
  from a b c d show ?thesis by simp
qed

theorem paste_blank_is_noop_witness:
  \<open>loadPastedConfig (\<lambda>c. RenderResolves) [CHR 0x20, CHR 0x0A, CHR 0x09] initial_page = initial_page
   \<and> error_display (loadPastedConfig (\<lambda>c. RenderResolves) ''{"a":}'' initial_page) = ''block''\<close>
proof -
  have h1: "\<forall>c\<in>set [CHR 0x20, CHR 0x0A, CHR 0x09]. js_whitespace c"
    by (simp add: js_whitespace_def)
  have h2: \<open>js_trim ''{"a":}'' \<noteq> []\<close>
    by (simp add: js_trim_def js_whitespace_def)
  have h3: \<open>JSON_parse (js_trim ''{"a":}'') = None\<close>
    by code_simp
  show ?thesis
    using paste_blank_is_noop [OF h1 h2 h3, of "\<lambda>c. RenderResolves" initial_page] by blast
qed

subsection \<open>What \<open>initApp\<close> does\<close>

lemma initApp_resolves:
  assumes "engine config = RenderResolves"
  shows "initApp engine config p =
    p\<lparr>engine_calls := engine_calls p @ [config], renderer := Some config,
      setup_opacity := ''0'', timers := Suc (timers p)\<rparr>"
  using assms by (simp add: initApp_def)

lemma initApp_fails:
  assumes "engine config = ConstructThrows m \<or> engine config = RenderRejects m"
  shows "console (initApp engine config p) =
           console p @ [(ERROR, ''Initialization Failed:'', Some (Error m))]"
    and "error_text (initApp engine config p) = ''Failed to initialize viewer: '' @ m"
    and "error_display (initApp engine config p) = ''block''"
    and "setup_opacity (initApp engine config p) = setup_opacity p"
    and "setup_display (initApp engine config p) = setup_display p"
    and "timers (initApp engine config p) = timers p"
    and "engine_calls (initApp engine config p) = engine_calls p @ [config]"
  using assms by (auto simp: initApp_def initApp_catch_def showError_def)

lemma initApp_engine_calls:
  "engine_calls (initApp engine config p) = engine_calls p @ [config]"
  by (cases "engine config") (simp_all add: initApp_def initApp_catch_def showError_def)

lemma initApp_console_no_log:
  assumes "(LOG, t, None) \<notin> set (console p)"
  shows "(LOG, t, None) \<notin> set (console (initApp engine config p))"
  using assms
  by (cases "engine config") (simp_all add: initApp_def initApp_catch_def showError_def)

lemma initApp_console:
  "\<exists>xs. console (initApp engine config p) = console p @ xs"
  by (cases "engine config") (simp_all add: initApp_def initApp_catch_def showError_def)

lemma use_embedded_console:
  "\<exists>xs. console (use_embedded engine DEFAULT_CONFIG p) = console p @ xs"
proof (cases "js_truthy DEFAULT_CONFIG")
  case True
  obtain xs where "console (initApp engine DEFAULT_CONFIG
      (p\<lparr>console := console p @ [(LOG, ''Using embedded default config'', None)]\<rparr>))
    = (console p @ [(LOG, ''Using embedded default config'', None)]) @ xs"
    using initApp_console
      [of engine DEFAULT_CONFIG
         "p\<lparr>console := console p @ [(LOG, ''Using embedded default config'', None)]\<rparr>"]
    by auto
  with True show ?thesis by (simp add: use_embedded_def)
next
  case False
  then show ?thesis by (simp add: use_embedded_def)
qed

lemma rendering_after_resolve:
  assumes "engine config = RenderResolves"
  shows "bootstrap_state (initApp engine config p) = Rendering"
    and "renderer (initApp engine config p) = Some config"
  using assms by (simp_all add: initApp_resolves bootstrap_state_def setup_shown_def)

lemma showError_fields:
  "error_display (showError msg p) = ''block''"
  "error_text (showError msg p) = msg"
  "setup_opacity (showError msg p) = setup_opacity p"
  "setup_display (showError msg p) = setup_display p"
  "timers (showError msg p) = timers p"
  "engine_calls (showError msg p) = engine_calls p"
  "renderer (showError msg p) = renderer p"
  "console (showError msg p) = console p"
  by (simp_all add: showError_def)

lemma bootstrap_state_cong:
  assumes "setup_opacity p' = setup_opacity p" "setup_display p' = setup_display p"
  shows "bootstrap_state p' = bootstrap_state p"
  using assms by (simp add: bootstrap_state_def setup_shown_def)

lemma initial_page_setup_visible: "bootstrap_state initial_page = SetupVisible"
  by (simp add: bootstrap_state_def setup_shown_def initial_page_def)

subsection \<open>Resolution on load\<close>

text \<open>
  C1. When the page URL carries a \<open>config\<close> parameter, the fetch of that URL answers with a
  success status and the body parses as JSON, the listener hands the fetched configuration
  to \<open>initApp\<close> and returns: the engine is constructed once, with the fetched
  configuration, and the branch of the embedded default is never entered, whatever
  \<open>DEFAULT_CONFIG\<close> is. The fetch is made for a parameter value that is not the empty
  string (\<open>if (configUrl)\<close>).
\<close>

theorem url_config_takes_priority:
  assumes url: "configUrl = Some url" "url \<noteq> []"
    and fetched: "fetch url = Response True body"
    and parsed: "JSON_parse body = Some config"
  shows "DOMContentLoaded engine fetch configUrl DEFAULT_CONFIG initial_page
           = initApp engine config initial_page
       \<and> engine_calls (DOMContentLoaded engine fetch configUrl DEFAULT_CONFIG initial_page)
           = [config]
       \<and> (LOG, ''Using embedded default config'', None)
           \<notin> set (console (DOMContentLoaded engine fetch configUrl DEFAULT_CONFIG initial_page))
       \<and> (engine config = RenderResolves \<longrightarrow>
            renderer (DOMContentLoaded engine fetch configUrl DEFAULT_CONFIG initial_page)
              = Some config
          \<and> bootstrap_state (DOMContentLoaded engine fetch configUrl DEFAULT_CONFIG initial_page)
              = Rendering)"
proof -
  have fc: "fetch_config fetch url = Inr config"
    using fetched parsed by (simp add: fetch_config_def)
  have eq: "DOMContentLoaded engine fetch configUrl DEFAULT_CONFIG initial_page
              = initApp engine config initial_page"
    using url fc by (simp add: DOMContentLoaded_def)
  have calls: "engine_calls (initApp engine config initial_page) = [config]"
    by (simp add: initApp_engine_calls initial_page_def)
  have "(LOG, ''Using embedded default config'', None) \<notin> set (console initial_page)"
    by (simp add: initial_page_def)
  then have nolog: "(LOG, ''Using embedded default config'', None)
      \<notin> set (console (initApp engine config initial_page))"
    by (rule initApp_console_no_log)
  show ?thesis
    unfolding eq using calls nolog rendering_after_resolve [of engine config initial_page]
    by simp
qed

theorem url_config_takes_priority_witness:
  \<open>renderer (DOMContentLoaded (\<lambda>c. RenderResolves) (\<lambda>u. Response True ''{"a":1}'')
       (Some ''c.json'') (JObj []) initial_page) = Some (JObj [(''a'', JNum 1)])
   \<and> engine_calls (DOMContentLoaded (\<lambda>c. RenderResolves) (\<lambda>u. Response True ''{"a":1}'')
       (Some ''c.json'') (JObj []) initial_page) = [JObj [(''a'', JNum 1)]]\<close>
proof -
  have h1: "Some ''c.json'' = Some ''c.json''" by simp
  have h2: "''c.json'' \<noteq> []" by simp
  have h3: \<open>(\<lambda>u::string. Response True ''{"a":1}'') ''c.json'' = Response True ''{"a":1}''\<close>
    by simp
  have h4: \<open>JSON_parse ''{"a":1}'' = Some (JObj [(''a'', JNum 1)])\<close>
    by code_simp
  show ?thesis
    using url_config_takes_priority [OF h1 h2 h3 h4, of "\<lambda>c. RenderResolves" "JObj []"]
    by auto
qed

text \<open>
  C2. When the \<open>config\<close> parameter is there and the fetch rejects, or answers with a
  non-success status, or its body does not parse, the exception is caught and logged as a
  warning on the console; nothing is written to the error paragraph, and the listener goes
  on to the embedded default. A truthy default is handed to the engine, and when the engine
  renders it the page is rendering with no error shown; with a falsy default the setup
  surface stays, without an error.
\<close>

theorem url_failure_falls_through:
  assumes url: "configUrl = Some url" "url \<noteq> []"
    and failed: "fetch url = Rejected m
       \<or> (\<exists>body. fetch url = Response False body)
       \<or> (\<exists>body. fetch url = Response True body \<and> JSON_parse body = None)"
  shows "\<exists>e. fetch_config fetch url = Inl e
       \<and> DOMContentLoaded engine fetch configUrl DEFAULT_CONFIG initial_page
           = use_embedded engine DEFAULT_CONFIG
               (initial_page\<lparr>console :=
                  [(WARN, ''URL config failed, trying local...'', Some e)]\<rparr>)
       \<and> hd (console (DOMContentLoaded engine fetch configUrl DEFAULT_CONFIG initial_page))
           = (WARN, ''URL config failed, trying local...'', Some e)
       \<and> (js_truthy DEFAULT_CONFIG \<longrightarrow>
            engine_calls (DOMContentLoaded engine fetch configUrl DEFAULT_CONFIG initial_page)
              = [DEFAULT_CONFIG])
       \<and> (js_truthy DEFAULT_CONFIG \<and> engine DEFAULT_CONFIG = RenderResolves \<longrightarrow>
            renderer (DOMContentLoaded engine fetch configUrl DEFAULT_CONFIG initial_page)
              = Some DEFAULT_CONFIG
          \<and> bootstrap_state
              (DOMContentLoaded engine fetch configUrl DEFAULT_CONFIG initial_page) = Rendering
          \<and> error_display
              (DOMContentLoaded engine fetch configUrl DEFAULT_CONFIG initial_page) = ''none'')
       \<and> (\<not> js_truthy DEFAULT_CONFIG \<longrightarrow>
            error_display
              (DOMContentLoaded engine fetch configUrl DEFAULT_CONFIG initial_page) = ''none''
          \<and> bootstrap_state
              (DOMContentLoaded engine fetch configUrl DEFAULT_CONFIG initial_page)
              = SetupVisible)"
proof -
  from failed obtain e where fc: "fetch_config fetch url = Inl e"
    by (auto simp: fetch_config_def)
  define p1 where
    "p1 = initial_page\<lparr>console := [(WARN, ''URL config failed, trying local...'', Some e)]\<rparr>"
  define p2 where
    "p2 = p1\<lparr>console := console p1 @ [(LOG, ''Using embedded default config'', None)]\<rparr>"
  have eq: "DOMContentLoaded engine fetch configUrl DEFAULT_CONFIG initial_page
              = use_embedded engine DEFAULT_CONFIG p1"
    using url fc by (simp add: DOMContentLoaded_def p1_def initial_page_def)
  have truthy: "use_embedded engine DEFAULT_CONFIG p1 = initApp engine DEFAULT_CONFIG p2"
    if "js_truthy DEFAULT_CONFIG"
    using that by (simp add: use_embedded_def p2_def)
  have falsy: "use_embedded engine DEFAULT_CONFIG p1 = p1" if "\<not> js_truthy DEFAULT_CONFIG"
    using that by (simp add: use_embedded_def)
  have calls: "engine_calls (initApp engine DEFAULT_CONFIG p2) = [DEFAULT_CONFIG]"
    by (simp add: initApp_engine_calls p2_def p1_def initial_page_def)
  have ok: "renderer (initApp engine DEFAULT_CONFIG p2) = Some DEFAULT_CONFIG
          \<and> bootstrap_state (initApp engine DEFAULT_CONFIG p2) = Rendering
          \<and> error_display (initApp engine DEFAULT_CONFIG p2) = ''none''"
    if "engine DEFAULT_CONFIG = RenderResolves"
    using that rendering_after_resolve [of engine DEFAULT_CONFIG p2]
    by (simp add: initApp_resolves p2_def p1_def initial_page_def)
  have quiet: "error_display p1 = ''none'' \<and> bootstrap_state p1 = SetupVisible"
    by (simp add: p1_def initial_page_def bootstrap_state_def setup_shown_def)
  obtain xs where "console (use_embedded engine DEFAULT_CONFIG p1) = console p1 @ xs"
    using use_embedded_console by blast
  then have warned: "hd (console (use_embedded engine DEFAULT_CONFIG p1))
      = (WARN, ''URL config failed, trying local...'', Some e)"
    by (simp add: p1_def)
  show ?thesis
    using fc eq truthy falsy calls ok quiet warned
    by (intro exI [of _ e]) (auto simp: p1_def)
qed

theorem url_failure_falls_through_witness:
  \<open>renderer (DOMContentLoaded (\<lambda>c. RenderResolves) (\<lambda>u. Response False ''Not Found'')
       (Some ''c.json'') (JObj []) initial_page) = Some (JObj [])
   \<and> error_display (DOMContentLoaded (\<lambda>c. RenderResolves) (\<lambda>u. Response False ''Not Found'')
       (Some ''c.json'') (JObj []) initial_page) = ''none''\<close>
proof -
  have h1: "Some ''c.json'' = Some ''c.json''" by simp
  have h2: "''c.json'' \<noteq> []" by simp
  have h3: "(\<lambda>u::string. Response False ''Not Found'') ''c.json'' = Rejected ''x''
       \<or> (\<exists>body. (\<lambda>u::string. Response False ''Not Found'') ''c.json'' = Response False body)
       \<or> (\<exists>body. (\<lambda>u::string. Response False ''Not Found'') ''c.json'' = Response True body
             \<and> JSON_parse body = None)"
    by simp
  show ?thesis
    using url_failure_falls_through [OF h1 h2 h3, of "\<lambda>c. RenderResolves" "JObj []"]
    by auto
qed

subsection \<open>Submissions on the setup surface\<close>

lemma handleFile_valid:
  assumes "JSON_parse text = Some config"
  shows "handleFile engine (Readable text) p = initApp engine config p"
  using assms by (simp add: handleFile_def)

lemma handleFile_invalid:
  assumes "JSON_parse text = None"
  shows "handleFile engine (Readable text) p = showError ''Invalid JSON file'' p"
  using assms by (simp add: handleFile_def)

lemma loadPastedConfig_valid:
  assumes "JSON_parse (js_trim pasted) = Some config"
  shows "loadPastedConfig engine pasted p = initApp engine config p"
proof -
  from assms have "js_trim pasted \<noteq> []"
    using JSON_parse_empty by auto
  with assms show ?thesis
    by (simp add: loadPastedConfig_def)
qed

lemma loadPastedConfig_invalid:
  assumes "js_trim pasted \<noteq> []" "JSON_parse (js_trim pasted) = None"
  shows "loadPastedConfig engine pasted p = showError ''Invalid JSON text'' p"
  using assms by (simp add: loadPastedConfig_def)

lemma valid_submission_renders:
  assumes from_file: "JSON_parse text = Some config"
    and paste: "JSON_parse (js_trim pasted) = Some config"
    and renders: "engine config = RenderResolves"
    and ev: "ev = Drop (Readable text # rest) \<or> ev = Change (Readable text # rest)
               \<or> ev = LoadJSON pasted"
  shows "bootstrap_state (step engine ev p) = Rendering"
    and "renderer (step engine ev p) = Some config"
  using ev rendering_after_resolve [of engine config, OF renders]
  by (auto simp: handleFile_valid [OF from_file] loadPastedConfig_valid [OF paste])

text \<open>
  C4. When the constructor of the engine throws or its \<open>render\<close> rejects for a configuration
  that was accepted, the \<open>catch\<close> block of \<open>initApp\<close> takes the failure: it is logged with
  \<open>console.error\<close>, its message is shown in the error paragraph of the setup surface, and
  the setup surface is left as it was, so the bootstrap state does not change. A later
  submission of a text that parses, by a drop, by the file input or by the paste area,
  reaches rendering when the engine renders it. \<open>initApp\<close> has no other exit: its whole body
  is inside the \<open>try\<close>, and it returns a page for every outcome of the engine.
\<close>

theorem render_failure_is_contained:
  assumes failure: "engine config = ConstructThrows m \<or> engine config = RenderRejects m"
    and from_file: "JSON_parse text = Some config'"
    and paste: "JSON_parse (js_trim pasted) = Some config'"
    and renders: "engine' config' = RenderResolves"
  shows "console (initApp engine config p)
           = console p @ [(ERROR, ''Initialization Failed:'', Some (Error m))]
       \<and> error_text (initApp engine config p) = ''Failed to initialize viewer: '' @ m
       \<and> error_display (initApp engine config p) = ''block''
       \<and> bootstrap_state (initApp engine config p) = bootstrap_state p
       \<and> (\<forall>ev \<in> {Drop (Readable text # rest), Change (Readable text # rest), LoadJSON pasted}.
            bootstrap_state (step engine' ev (initApp engine config p)) = Rendering
          \<and> renderer (step engine' ev (initApp engine config p)) = Some config')"
proof -
  note f = initApp_fails [of engine config m p, OF failure]
  have st: "bootstrap_state (initApp engine config p) = bootstrap_state p"
    by (rule bootstrap_state_cong) (simp_all add: f)
  have next_ok: "bootstrap_state (step engine' ev (initApp engine config p)) = Rendering
          \<and> renderer (step engine' ev (initApp engine config p)) = Some config'"
    if "ev \<in> {Drop (Readable text # rest), Change (Readable text # rest), LoadJSON pasted}"
    for ev
    using that valid_submission_renders
        [where engine = engine' and config = config' and ev = ev and rest = rest,
         OF from_file paste renders]
    by blast
  from f st next_ok show ?thesis by blast
qed

theorem render_failure_is_contained_witness:
  \<open>error_text (initApp (\<lambda>c. RenderRejects ''no table'') JNull initial_page)
      = ''Failed to initialize viewer: no table''
   \<and> bootstrap_state (initApp (\<lambda>c. RenderRejects ''no table'') JNull initial_page)
      = SetupVisible
   \<and> bootstrap_state (step (\<lambda>c. RenderResolves) (LoadJSON '' {"a":1} '')
        (initApp (\<lambda>c. RenderRejects ''no table'') JNull initial_page)) = Rendering\<close>
proof -
  have h1: "(\<lambda>c::json. RenderRejects ''no table'') JNull = ConstructThrows ''no table''
          \<or> (\<lambda>c::json. RenderRejects ''no table'') JNull = RenderRejects ''no table''"
    by simp
  have h2: \<open>JSON_parse ''{"a":1}'' = Some (JObj [(''a'', JNum 1)])\<close>
    by code_simp
  have h3: \<open>JSON_parse (js_trim '' {"a":1} '') = Some (JObj [(''a'', JNum 1)])\<close>
    by code_simp
  have h4: "(\<lambda>c::json. RenderResolves) (JObj [(''a'', JNum 1)]) = RenderResolves"
    by simp
  show ?thesis
    using render_failure_is_contained
        [where engine = "\<lambda>c. RenderRejects ''no table''" and config = JNull
           and engine' = "\<lambda>c. RenderResolves" and p = initial_page and rest = "[]",
         OF h1 h2 h3 h4]
      initial_page_setup_visible
    by auto
qed

subsection \<open>Waiting on the setup surface\<close>

lemma step_without_config:
  assumes "\<not> supplies_config ev"
    and "setup_opacity p = [] \<and> setup_display p = [] \<and> timers p = 0
       \<and> engine_calls p = [] \<and> renderer p = None"
  shows "setup_opacity (step engine ev p) = [] \<and> setup_display (step engine ev p) = []
       \<and> timers (step engine ev p) = 0
       \<and> engine_calls (step engine ev p) = [] \<and> renderer (step engine ev p) = None"
proof (cases ev)
  case DragOver
  with assms show ?thesis by simp
next
  case DragLeave
  with assms show ?thesis by simp
next
  case (Drop files)
  show ?thesis
  proof (cases files)
    case Nil
    with Drop assms show ?thesis by simp
  next
    case (Cons f rest)
    show ?thesis
    proof (cases f)
      case (Readable t)
      with Drop Cons assms(1) have "JSON_parse t = None" by simp
      with Drop Cons Readable assms(2) show ?thesis
        by (simp add: handleFile_invalid showError_fields)
    next
      case Unread
      with Drop Cons assms show ?thesis by (simp add: handleFile_def)
    qed
  qed
next
  case (Change files)
  show ?thesis
  proof (cases files)
    case Nil
    with Change assms show ?thesis by simp
  next
    case (Cons f rest)
    show ?thesis
    proof (cases f)
      case (Readable t)
      with Change Cons assms(1) have "JSON_parse t = None" by simp
      with Change Cons Readable assms(2) show ?thesis
        by (simp add: handleFile_invalid showError_fields)
    next
      case Unread
      with Change Cons assms show ?thesis by (simp add: handleFile_def)
    qed
  qed
next
  case (LoadJSON pasted)
  with assms(1) have none: "JSON_parse (js_trim pasted) = None" by simp
  show ?thesis
  proof (cases "js_trim pasted = []")
    case True
    with LoadJSON assms(2) show ?thesis by (simp add: loadPastedConfig_def)
  next
    case False
    with LoadJSON none assms(2) show ?thesis
      by (simp add: loadPastedConfig_invalid showError_fields)
  qed
next
  case Timeout
  with assms show ?thesis by simp
qed

lemma run_without_config:
  assumes "\<forall>ev\<in>set evs. \<not> supplies_config ev"
    and "setup_opacity p = [] \<and> setup_display p = [] \<and> timers p = 0
       \<and> engine_calls p = [] \<and> renderer p = None"
  shows "setup_opacity (run engine evs p) = [] \<and> setup_display (run engine evs p) = []
       \<and> timers (run engine evs p) = 0
       \<and> engine_calls (run engine evs p) = [] \<and> renderer (run engine evs p) = None"
  using assms
proof (induction evs arbitrary: p)
  case Nil
  then show ?case by simp
next
  case (Cons ev evs)
  from Cons.prems have "\<not> supplies_config ev" by simp
  then have "setup_opacity (step engine ev p) = [] \<and> setup_display (step engine ev p) = []
       \<and> timers (step engine ev p) = 0
       \<and> engine_calls (step engine ev p) = [] \<and> renderer (step engine ev p) = None"
    using Cons.prems(2) by (rule step_without_config)
  moreover from Cons.prems have "\<forall>ev\<in>set evs. \<not> supplies_config ev" by simp
  ultimately show ?case
    using Cons.IH [of "step engine ev p"] by simp
qed

text \<open>
  C5. With no \<open>config\<close> parameter and a default that is not truthy, the listener changes
  nothing: the page is the initial page, with the setup surface on screen and no timer
  pending. It stays so through every sequence of events (drag events, drops, changes of the
  file input, clicks on the load button, timers) in which no event supplies a text that
  parses: the setup surface is on screen, the engine has not been constructed, and no timer
  has been scheduled that could hide the surface.
\<close>

theorem setup_surface_waits_for_config:
  assumes no_default: "\<not> js_truthy DEFAULT_CONFIG"
    and no_config: "\<forall>ev\<in>set evs. \<not> supplies_config ev"
  shows "DOMContentLoaded engine fetch None DEFAULT_CONFIG initial_page = initial_page
       \<and> bootstrap_state
           (run engine evs (DOMContentLoaded engine fetch None DEFAULT_CONFIG initial_page))
           = SetupVisible
       \<and> engine_calls
           (run engine evs (DOMContentLoaded engine fetch None DEFAULT_CONFIG initial_page)) = []
       \<and> renderer
           (run engine evs (DOMContentLoaded engine fetch None DEFAULT_CONFIG initial_page))
           = None
       \<and> timers
           (run engine evs (DOMContentLoaded engine fetch None DEFAULT_CONFIG initial_page)) = 0"
proof -
  have load: "DOMContentLoaded engine fetch None DEFAULT_CONFIG initial_page = initial_page"
    using no_default by (simp add: DOMContentLoaded_def use_embedded_def)
  have "setup_opacity initial_page = [] \<and> setup_display initial_page = []
       \<and> timers initial_page = 0
       \<and> engine_calls initial_page = [] \<and> renderer initial_page = None"
    by (simp add: initial_page_def)
  with no_config have inv:
    "setup_opacity (run engine evs initial_page) = []
       \<and> setup_display (run engine evs initial_page) = []
       \<and> timers (run engine evs initial_page) = 0
       \<and> engine_calls (run engine evs initial_page) = []
       \<and> renderer (run engine evs initial_page) = None"
    by (rule run_without_config)
  then have "bootstrap_state (run engine evs initial_page) = SetupVisible"
    by (simp add: bootstrap_state_def setup_shown_def)
  with load inv show ?thesis by simp
qed

theorem setup_surface_waits_for_config_witness:
  \<open>bootstrap_state
     (run (\<lambda>c. RenderResolves)
        [DragOver, Drop [Readable ''{"a":}''], LoadJSON ''  '', Timeout, Change [Unread]]
        (DOMContentLoaded (\<lambda>c. RenderResolves) (\<lambda>u. Rejected ''offline'') None JNull
           initial_page)) = SetupVisible\<close>
proof -
  have h1: "\<not> js_truthy JNull" by simp
  have p1: \<open>JSON_parse ''{"a":}'' = None\<close> by code_simp
  have p2: \<open>JSON_parse (js_trim ''  '') = None\<close> by code_simp
  have h2: \<open>\<forall>ev\<in>set [DragOver, Drop [Readable ''{"a":}''], LoadJSON ''  '', Timeout,
                        Change [Unread]]. \<not> supplies_config ev\<close>
    using p1 p2 by simp
  show ?thesis
    using setup_surface_waits_for_config
        [where engine = "\<lambda>c. RenderResolves" and fetch = "\<lambda>u. Rejected ''offline''", OF h1 h2]
    by blast
qed

subsection \<open>Falsy defaults\<close>

lemma falsy_default_skipped:
  assumes "\<not> js_truthy DEFAULT_CONFIG"
  shows "DOMContentLoaded engine fetch None DEFAULT_CONFIG p = p"
  using assms by (simp add: DOMContentLoaded_def use_embedded_def)

lemma read_config_valid:
  assumes "nodes fs (CONFIG_PATH ROOT_DIR) = File t" "json_loads t = Some v"
  shows "read_config fs ROOT_DIR = Inr t"
  using assms by (simp add: read_config_def read_file_def)

lemma falsy_literals:
  \<open>json_loads ''null'' = Some JNull\<close>
  \<open>json_loads ''false'' = Some (JBool False)\<close>
  \<open>json_loads ''0'' = Some (JNum 0)\<close>
  \<open>json_loads [CHR 0x22, CHR 0x22] = Some (JStr [])\<close>
  by code_simp+

subsection \<open>Invalid input, then valid input\<close>

lemma invalid_submission_shows_error:
  assumes bad_text: "JSON_parse bad = None"
    and bad_paste: "js_trim bad_pasted \<noteq> []" "JSON_parse (js_trim bad_pasted) = None"
    and ev: "ev = Drop (Readable bad # rest) \<or> ev = Change (Readable bad # rest)
               \<or> ev = LoadJSON bad_pasted"
  shows "error_display (step engine ev p) = ''block''"
    and "error_text (step engine ev p) = ''Invalid JSON file''
           \<or> error_text (step engine ev p) = ''Invalid JSON text''"
    and "setup_opacity (step engine ev p) = setup_opacity p"
    and "setup_display (step engine ev p) = setup_display p"
    and "engine_calls (step engine ev p) = engine_calls p"
  using ev
  by (auto simp: handleFile_invalid [OF bad_text] loadPastedConfig_invalid [OF bad_paste]
        showError_fields)

lemma valid_submission_calls_engine:
  assumes from_file: "JSON_parse good = Some config"
    and paste: "JSON_parse (js_trim good_pasted) = Some config"
    and ev: "ev = Drop (Readable good # rest) \<or> ev = Change (Readable good # rest)
               \<or> ev = LoadJSON good_pasted"
  shows "engine_calls (step engine ev p) = engine_calls p @ [config]"
  using ev
  by (auto simp: handleFile_valid [OF from_file] loadPastedConfig_valid [OF paste]
        initApp_engine_calls)

text \<open>
  C3, as the code has it. A dropped or picked file whose text does not parse, and a pasted
  text that is not blank and whose trimmed form does not parse, leave the setup surface on
  screen and show an inline error; the engine is not called. A submission after that, by
  any of the three mechanisms, whose text (trimmed, for the paste area) parses is handed to
  the engine, and when the engine renders it the page is rendering.
\<close>

theorem invalid_submission_then_valid:
  assumes visible: "bootstrap_state p = SetupVisible"
    and bad_text: "JSON_parse bad = None"
    and bad_paste: "js_trim bad_pasted \<noteq> []" "JSON_parse (js_trim bad_pasted) = None"
    and good_text: "JSON_parse good = Some config"
    and good_paste: "JSON_parse (js_trim good_pasted) = Some config"
    and renders: "engine' config = RenderResolves"
  shows "\<forall>ev \<in> {Drop (Readable bad # rest), Change (Readable bad # rest), LoadJSON bad_pasted}.
           bootstrap_state (step engine ev p) = SetupVisible
         \<and> error_display (step engine ev p) = ''block''
         \<and> error_text (step engine ev p) \<in> {''Invalid JSON file'', ''Invalid JSON text''}
         \<and> engine_calls (step engine ev p) = engine_calls p
         \<and> (\<forall>ev' \<in> {Drop (Readable good # rest'), Change (Readable good # rest'),
                       LoadJSON good_pasted}.
                engine_calls (step engine' ev' (step engine ev p)) = engine_calls p @ [config]
              \<and> renderer (step engine' ev' (step engine ev p)) = Some config
              \<and> bootstrap_state (step engine' ev' (step engine ev p)) = Rendering)"
proof
  fix ev
  assume "ev \<in> {Drop (Readable bad # rest), Change (Readable bad # rest), LoadJSON bad_pasted}"
  then have ev: "ev = Drop (Readable bad # rest) \<or> ev = Change (Readable bad # rest)
               \<or> ev = LoadJSON bad_pasted"
    by blast
  note bad = invalid_submission_shows_error [OF bad_text bad_paste ev, of engine p]
  have st: "bootstrap_state (step engine ev p) = SetupVisible"
    using bootstrap_state_cong [OF bad(3) bad(4)] visible by simp
  have later: "engine_calls (step engine' ev' (step engine ev p)) = engine_calls p @ [config]
              \<and> renderer (step engine' ev' (step engine ev p)) = Some config
              \<and> bootstrap_state (step engine' ev' (step engine ev p)) = Rendering"
    if "ev' \<in> {Drop (Readable good # rest'), Change (Readable good # rest'),
                 LoadJSON good_pasted}" for ev'
  proof -
    from that have ev': "ev' = Drop (Readable good # rest') \<or> ev' = Change (Readable good # rest')
               \<or> ev' = LoadJSON good_pasted"
      by blast
    have "engine_calls (step engine' ev' (step engine ev p))
            = engine_calls (step engine ev p) @ [config]"
      using good_text good_paste ev' by (rule valid_submission_calls_engine)
    with bad(5) have c: "engine_calls (step engine' ev' (step engine ev p))
            = engine_calls p @ [config]"
      by simp
    note r = valid_submission_renders
        [where engine = engine' and config = config and ev = ev' and rest = rest'
           and p = "step engine ev p", OF good_text good_paste renders ev']
    from c r show ?thesis by simp
  qed
  from st bad(1) bad(2) bad(5) later
  show "bootstrap_state (step engine ev p) = SetupVisible
         \<and> error_display (step engine ev p) = ''block''
         \<and> error_text (step engine ev p) \<in> {''Invalid JSON file'', ''Invalid JSON text''}
         \<and> engine_calls (step engine ev p) = engine_calls p
         \<and> (\<forall>ev' \<in> {Drop (Readable good # rest'), Change (Readable good # rest'),
                       LoadJSON good_pasted}.
                engine_calls (step engine' ev' (step engine ev p)) = engine_calls p @ [config]
              \<and> renderer (step engine' ev' (step engine ev p)) = Some config
              \<and> bootstrap_state (step engine' ev' (step engine ev p)) = Rendering)"
    by blast
qed

theorem invalid_submission_then_valid_witness:
  \<open>error_display (step (\<lambda>c. RenderResolves) (Drop [Readable ''{"a":}'']) initial_page) = ''block''
   \<and> bootstrap_state (step (\<lambda>c. RenderResolves) (Drop [Readable ''{"a":}'']) initial_page)
       = SetupVisible
   \<and> bootstrap_state
       (step (\<lambda>c. RenderResolves) (LoadJSON ''{"a":1}'')
          (step (\<lambda>c. RenderResolves) (Drop [Readable ''{"a":}'']) initial_page)) = Rendering\<close>
proof -
  have h2: \<open>JSON_parse ''{"a":}'' = None\<close> by code_simp
  have h3: \<open>js_trim ''{"a":}'' \<noteq> []\<close> by (simp add: js_trim_def js_whitespace_def)
  have h4: \<open>JSON_parse (js_trim ''{"a":}'') = None\<close> by code_simp
  have h5: \<open>JSON_parse ''{"a":1}'' = Some (JObj [(''a'', JNum 1)])\<close> by code_simp
  have h6: \<open>JSON_parse (js_trim ''{"a":1}'') = Some (JObj [(''a'', JNum 1)])\<close> by code_simp
  have h7: "(\<lambda>c::json. RenderResolves) (JObj [(''a'', JNum 1)]) = RenderResolves" by simp
  show ?thesis
    using invalid_submission_then_valid
        [where engine = "\<lambda>c. RenderResolves" and engine' = "\<lambda>c. RenderResolves"
           and rest = "[]" and rest' = "[]" and p = initial_page,
         OF initial_page_setup_visible h2 h3 h4 h5 h6 h7]
    by blast
qed

text \<open>
  C3 as stated fails for the paste area: the empty text is not valid JSON, and committing it
  shows no error, because \<open>loadPastedConfig\<close> returns before the parse when the trimmed text
  is empty.
\<close>

theorem blank_paste_shows_no_error:
  "JSON_parse [] = None
   \<and> error_display (step (\<lambda>c. RenderResolves) (LoadJSON []) initial_page) = ''none''
   \<and> error_text (step (\<lambda>c. RenderResolves) (LoadJSON []) initial_page) = []"
  by (simp add: JSON_parse_empty loadPastedConfig_def js_trim_def initial_page_def)

subsection \<open>The module loop\<close>

lemma bundle_modules_readable:
  assumes "\<forall>m\<in>set modules. nodes fs (path_join js_dir m) = File (content m)"
  shows "bundle_modules fs js_dir modules js_content out =
    Inr (js_content
           @ concat (map (\<lambda>m. ''\<newline>/* --- '' @ m @ '' --- */\<newline>'' @ content m @ ''\<newline>'')
               modules),
         out @ map (\<lambda>m. Line (''Bundling '' @ m @ ''...'')) modules)"
  using assms
proof (induction modules arbitrary: js_content out)
  case Nil
  then show ?case by simp
next
  case (Cons m modules)
  from Cons.prems have here: "read_file fs (path_join js_dir m) = Inr (content m)"
    by (simp add: read_file_def)
  from Cons.prems have rest: "\<forall>m\<in>set modules. nodes fs (path_join js_dir m) = File (content m)"
    by simp
  show ?case
    by (simp add: here Cons.IH [OF rest])
qed

lemma bundle_modules_Inr:
  assumes "bundle_modules fs js_dir modules js_content out = Inr r"
  shows "\<forall>m\<in>set modules. \<exists>x. nodes fs (path_join js_dir m) = File x"
  using assms
proof (induction modules arbitrary: js_content out)
  case Nil
  then show ?case by simp
next
  case (Cons m modules)
  show ?case
  proof (cases "nodes fs (path_join js_dir m)")
    case Absent
    with Cons.prems show ?thesis by (simp add: read_file_def)
  next
    case Unreadable
    with Cons.prems show ?thesis by (simp add: read_file_def)
  next
    case (File x)
    with Cons.prems have "\<forall>m\<in>set modules. \<exists>x. nodes fs (path_join js_dir m) = File x"
      using Cons.IH by (simp add: read_file_def)
    with File show ?thesis by simp
  qed
qed

subsection \<open>The outcomes of a build\<close>

lemma read_config_Inl:
  assumes "nodes fs (CONFIG_PATH ROOT_DIR) = Absent \<or> nodes fs (CONFIG_PATH ROOT_DIR) = Unreadable
     \<or> (\<exists>t. nodes fs (CONFIG_PATH ROOT_DIR) = File t \<and> json_loads t = None)"
  shows "\<exists>e. read_config fs ROOT_DIR = Inl e"
  using assms by (auto simp: read_config_def read_file_def)

lemma read_config_Inr:
  assumes "read_config fs ROOT_DIR = Inr t"
  shows "nodes fs (CONFIG_PATH ROOT_DIR) = File t \<and> (\<exists>v. json_loads t = Some v)"
  using assms
  by (auto simp: read_config_def read_file_def split: node.splits option.splits)

lemma build_with_invalid_config:
  assumes "read_config fs ROOT_DIR = Inl e"
  shows "disk (build_with modules ROOT_DIR fs) = fs"
    and "nodes fs (CSS_PATH ROOT_DIR) = File css \<Longrightarrow>
           build_with modules ROOT_DIR fs =
             \<lparr>completion = Returned, disk = fs,
              stdout = [Line ''Building viewer.html...'',
                        Line (''Reading CSS from '' @ CSS_PATH ROOT_DIR @ ''...''),
                        Line (''Reading Config from '' @ CONFIG_PATH ROOT_DIR @ ''...''),
                        Report ''Error reading config: '' e]\<rparr>"
  using assms
  by (auto simp: build_with_def read_file_def Let_def split: node.splits)

lemma build_with_all_readable:
  assumes css: "nodes fs (CSS_PATH ROOT_DIR) = File css_content"
    and cfg: "nodes fs (CONFIG_PATH ROOT_DIR) = File config_content"
      "json_loads config_content = Some v"
    and mods: "\<forall>m\<in>set modules. nodes fs (path_join (JS_DIR ROOT_DIR) m) = File (content m)"
    and w: "writable fs (OUTPUT_FILE ROOT_DIR)"
  shows "build_with modules ROOT_DIR fs =
    \<lparr>completion = Returned,
     disk = fs\<lparr>nodes := (nodes fs)(OUTPUT_FILE ROOT_DIR :=
       File (html_template css_content config_content
         (concat (map (\<lambda>m. ''\<newline>/* --- '' @ m @ '' --- */\<newline>'' @ content m @ ''\<newline>'')
            modules))))\<rparr>,
     stdout =
       [Line ''Building viewer.html...'',
        Line (''Reading CSS from '' @ CSS_PATH ROOT_DIR @ ''...''),
        Line (''Reading Config from '' @ CONFIG_PATH ROOT_DIR @ ''...'')]
       @ map (\<lambda>m. Line (''Bundling '' @ m @ ''...'')) modules
       @ [Line (''Successfully generated '' @ OUTPUT_FILE ROOT_DIR)]\<rparr>"
proof -
  have b: "bundle_modules fs (JS_DIR ROOT_DIR) modules [] out' =
           Inr (concat (map (\<lambda>m. ''\<newline>/* --- '' @ m @ '' --- */\<newline>'' @ content m @ ''\<newline>'')
                  modules),
                out' @ map (\<lambda>m. Line (''Bundling '' @ m @ ''...'')) modules)" for out'
    using bundle_modules_readable [OF mods, of "[]" out'] by simp
  have c: "read_config fs ROOT_DIR = Inr config_content"
    using cfg by (rule read_config_valid)
  have r: "read_file fs (CSS_PATH ROOT_DIR) = Inr css_content"
    using css by (simp add: read_file_def)
  show ?thesis
    by (simp add: build_with_def Let_def r c b write_file_def w)
qed

text \<open>
  The lines that the module loop prints are lines it was given or lines of the form
  \<open>Bundling ...\<close>; the line that reports success is printed by no step but the last.
\<close>

lemma bundle_modules_lines:
  assumes "bundle_modules fs js_dir modules js_content out = Inl (e, out')
         \<or> bundle_modules fs js_dir modules js_content out = Inr (js, out')"
  shows "\<forall>l\<in>set out'. l \<in> set out \<or> (\<exists>m. l = Line (''Bundling '' @ m @ ''...''))"
  using assms
proof (induction modules arbitrary: js_content out)
  case Nil
  then show ?case by simp
next
  case (Cons m modules)
  show ?case
  proof (cases "read_file fs (path_join js_dir m)")
    case (Inl e')
    with Cons.prems have "out' = out @ [Line (''Bundling '' @ m @ ''...'')]"
      by simp
    then show ?thesis by auto
  next
    case (Inr x)
    with Cons.prems have
      "bundle_modules fs js_dir modules
         ((js_content @ ''\<newline>/* --- '' @ m @ '' --- */\<newline>'') @ x @ ''\<newline>'')
         (out @ [Line (''Bundling '' @ m @ ''...'')]) = Inl (e, out')
       \<or> bundle_modules fs js_dir modules
         ((js_content @ ''\<newline>/* --- '' @ m @ '' --- */\<newline>'') @ x @ ''\<newline>'')
         (out @ [Line (''Bundling '' @ m @ ''...'')]) = Inr (js, out')"
      by (simp add: Let_def)
    from Cons.IH [OF this] show ?thesis by auto
  qed
qed

lemma build_with_outcome:
  "(disk (build_with modules ROOT_DIR fs) = fs
      \<and> Line (''Successfully generated '' @ OUTPUT_FILE ROOT_DIR)
          \<notin> set (stdout (build_with modules ROOT_DIR fs)))
   \<or> (\<exists>css cfg js out.
           nodes fs (CSS_PATH ROOT_DIR) = File css
         \<and> read_config fs ROOT_DIR = Inr cfg
         \<and> bundle_modules fs (JS_DIR ROOT_DIR) modules []
              [Line ''Building viewer.html...'',
               Line (''Reading CSS from '' @ CSS_PATH ROOT_DIR @ ''...''),
               Line (''Reading Config from '' @ CONFIG_PATH ROOT_DIR @ ''...'')] = Inr (js, out)
         \<and> writable fs (OUTPUT_FILE ROOT_DIR)
         \<and> build_with modules ROOT_DIR fs =
             \<lparr>completion = Returned,
              disk = fs\<lparr>nodes := (nodes fs)(OUTPUT_FILE ROOT_DIR :=
                        File (html_template css cfg js))\<rparr>,
              stdout = out @ [Line (''Successfully generated '' @ OUTPUT_FILE ROOT_DIR)]\<rparr>)"
proof (cases "read_file fs (CSS_PATH ROOT_DIR)")
  case (Inl e)
  then show ?thesis by (simp add: build_with_def Let_def)
next
  case css: (Inr css_content)
  then have node: "nodes fs (CSS_PATH ROOT_DIR) = File css_content"
    by (simp add: read_file_def split: node.splits)
  show ?thesis
  proof (cases "read_config fs ROOT_DIR")
    case (Inl e)
    with css show ?thesis by (simp add: build_with_def Let_def)
  next
    case cfg: (Inr config_content)
    define out1 where "out1 =
      [Line ''Building viewer.html...'',
       Line (''Reading CSS from '' @ CSS_PATH ROOT_DIR @ ''...''),
       Line (''Reading Config from '' @ CONFIG_PATH ROOT_DIR @ ''...'')]"
    have first: "Line (''Successfully generated '' @ OUTPUT_FILE ROOT_DIR) \<notin> set out1"
      by (simp add: out1_def)
    have quiet: "Line (''Successfully generated '' @ OUTPUT_FILE ROOT_DIR) \<notin> set out2"
      if "(\<exists>e. bundle_modules fs (JS_DIR ROOT_DIR) modules [] out1 = Inl (e, out2))
         \<or> (\<exists>js. bundle_modules fs (JS_DIR ROOT_DIR) modules [] out1 = Inr (js, out2))"
      for out2
    proof
      assume printed: "Line (''Successfully generated '' @ OUTPUT_FILE ROOT_DIR) \<in> set out2"
      from that obtain e js where
        "bundle_modules fs (JS_DIR ROOT_DIR) modules [] out1 = Inl (e, out2)
         \<or> bundle_modules fs (JS_DIR ROOT_DIR) modules [] out1 = Inr (js, out2)"
        by blast
      from bundle_modules_lines [OF this] printed have
        "Line (''Successfully generated '' @ OUTPUT_FILE ROOT_DIR) \<in> set out1
         \<or> (\<exists>m. Line (''Successfully generated '' @ OUTPUT_FILE ROOT_DIR)
                  = Line (''Bundling '' @ m @ ''...''))"
        by blast
      with first show False by simp
    qed
    show ?thesis
    proof (cases "bundle_modules fs (JS_DIR ROOT_DIR) modules [] out1")
      case (Inl a)
      obtain e out2 where a: "a = (e, out2)" by (cases a)
      from Inl a quiet [of out2] css cfg show ?thesis
        by (simp add: build_with_def Let_def out1_def)
    next
      case (Inr a)
      obtain js out2 where a: "a = (js, out2)" by (cases a)
      show ?thesis
      proof (cases "writable fs (OUTPUT_FILE ROOT_DIR)")
        case False
        with Inr a quiet [of out2] css cfg show ?thesis
          by (simp add: build_with_def Let_def out1_def write_file_def)
      next
        case True
        with Inr a css cfg node show ?thesis
          by (simp add: build_with_def Let_def out1_def write_file_def)
      qed
    qed
  qed
qed

lemma build_with_writes:
  assumes "disk (build_with modules ROOT_DIR fs) \<noteq> fs"
  shows "\<exists>css cfg js out.
           nodes fs (CSS_PATH ROOT_DIR) = File css
         \<and> read_config fs ROOT_DIR = Inr cfg
         \<and> bundle_modules fs (JS_DIR ROOT_DIR) modules []
              [Line ''Building viewer.html...'',
               Line (''Reading CSS from '' @ CSS_PATH ROOT_DIR @ ''...''),
               Line (''Reading Config from '' @ CONFIG_PATH ROOT_DIR @ ''...'')] = Inr (js, out)
         \<and> writable fs (OUTPUT_FILE ROOT_DIR)
         \<and> build_with modules ROOT_DIR fs =
             \<lparr>completion = Returned,
              disk = fs\<lparr>nodes := (nodes fs)(OUTPUT_FILE ROOT_DIR :=
                        File (html_template css cfg js))\<rparr>,
              stdout = out @ [Line (''Successfully generated '' @ OUTPUT_FILE ROOT_DIR)]\<rparr>"
  using assms build_with_outcome [of modules ROOT_DIR fs] by blast


text \<open>
  C7. For every list of module files that can all be read, the loop yields, in the order
  of the list, one entry per module: the marker line \<open>/* --- name --- */\<close> naming the
  module, then the text of the module, then a newline; nothing else is added and no entry
  is left out or repeated. With a readable stylesheet, a valid configuration and a writable
  output path, the document that the build writes is the head of the template, the
  stylesheet, the part of the template up to the default configuration, the text of the
  configuration, the part up to the modules, this module text, and the rest of the
  template.
\<close>

theorem modules_embedded_in_order:
  assumes css: "nodes fs (CSS_PATH ROOT_DIR) = File css_content"
    and cfg: "nodes fs (CONFIG_PATH ROOT_DIR) = File config_content"
      "json_loads config_content = Some v"
    and mods: "\<forall>m\<in>set modules. nodes fs (path_join (JS_DIR ROOT_DIR) m) = File (content m)"
    and w: "writable fs (OUTPUT_FILE ROOT_DIR)"
  shows "bundle_modules fs (JS_DIR ROOT_DIR) modules [] out =
           Inr (concat (map (\<lambda>m. ''\<newline>/* --- '' @ m @ '' --- */\<newline>'' @ content m @ ''\<newline>'')
                  modules),
                out @ map (\<lambda>m. Line (''Bundling '' @ m @ ''...'')) modules)
       \<and> completion (build_with modules ROOT_DIR fs) = Returned
       \<and> nodes (disk (build_with modules ROOT_DIR fs)) (OUTPUT_FILE ROOT_DIR) =
           File (template_head @ css_content @ template_style @ config_content
                 @ template_script
                 @ concat (map (\<lambda>m. ''\<newline>/* --- '' @ m @ '' --- */\<newline>'' @ content m @ ''\<newline>'')
                     modules)
                 @ template_tail)"
proof -
  have b: "bundle_modules fs (JS_DIR ROOT_DIR) modules [] out =
           Inr (concat (map (\<lambda>m. ''\<newline>/* --- '' @ m @ '' --- */\<newline>'' @ content m @ ''\<newline>'')
                  modules),
                out @ map (\<lambda>m. Line (''Bundling '' @ m @ ''...'')) modules)"
    using bundle_modules_readable [OF mods, of "[]" out] by simp
  note r = build_with_all_readable [OF css cfg mods w]
  have c: "completion (build_with modules ROOT_DIR fs) = Returned"
    by (simp add: r)
  have d: "nodes (disk (build_with modules ROOT_DIR fs)) (OUTPUT_FILE ROOT_DIR) =
           File (template_head @ css_content @ template_style @ config_content
                 @ template_script
                 @ concat (map (\<lambda>m. ''\<newline>/* --- '' @ m @ '' --- */\<newline>'' @ content m @ ''\<newline>'')
                     modules)
                 @ template_tail)"
    by (simp add: r html_template_def)
  from b c d show ?thesis by blast
qed

theorem modules_embedded_in_order_witness:
  "nodes (disk (build_with [''a.js'', ''b.js''] ''/repo'' fs_two_modules)) ''/repo/viewer.html'' =
     File (template_head @ ''{}'' @ template_style @ ''{}'' @ template_script
           @ ''\<newline>/* --- a.js --- */\<newline>A\<newline>\<newline>/* --- b.js --- */\<newline>B\<newline>''
           @ template_tail)"
proof -
  have h1: "nodes fs_two_modules (CSS_PATH ''/repo'') = File ''{}''"
    by (simp add: fs_two_modules_def CSS_PATH_def path_join_def)
  have h2: "nodes fs_two_modules (CONFIG_PATH ''/repo'') = File ''{}''"
    by (simp add: fs_two_modules_def CONFIG_PATH_def path_join_def)
  have h3: "json_loads ''{}'' = Some (JObj [])"
    by code_simp
  have h4: "\<forall>m\<in>set [''a.js'', ''b.js'']. nodes fs_two_modules (path_join (JS_DIR ''/repo'') m)
              = File ((\<lambda>m. if m = ''a.js'' then ''A'' else ''B'') m)"
    by (simp add: fs_two_modules_def JS_DIR_def path_join_def)
  have h5: "writable fs_two_modules (OUTPUT_FILE ''/repo'')"
    by (simp add: fs_two_modules_def)
  have o: "OUTPUT_FILE ''/repo'' = ''/repo/viewer.html''"
    by (simp add: OUTPUT_FILE_def path_join_def)
  show ?thesis
    using modules_embedded_in_order
        [where content = "\<lambda>m. if m = ''a.js'' then ''A'' else ''B''", OF h1 h2 h3 h4 h5]
    by (simp add: o)
qed

text \<open>
  A configuration file that is missing, cannot be read or is not JSON: the build writes
  nothing. If the stylesheet could be read, the \<open>except\<close> block prints
  \<open>Error reading config:\<close> with the exception and \<open>build\<close> returns, so the script ends with
  exit status 0. Whenever a build changes the file system, the stylesheet, the
  configuration and every module were read, the configuration was valid JSON and the output
  path was writable.
\<close>

theorem invalid_config_writes_nothing:
  assumes bad: "nodes fs (CONFIG_PATH ROOT_DIR) = Absent
     \<or> nodes fs (CONFIG_PATH ROOT_DIR) = Unreadable
     \<or> (\<exists>t. nodes fs (CONFIG_PATH ROOT_DIR) = File t \<and> json_loads t = None)"
  shows "disk (build_with modules ROOT_DIR fs) = fs
       \<and> (nodes fs (CSS_PATH ROOT_DIR) = File css \<longrightarrow>
            (\<exists>e. build_with modules ROOT_DIR fs =
                   \<lparr>completion = Returned, disk = fs,
                    stdout = [Line ''Building viewer.html...'',
                              Line (''Reading CSS from '' @ CSS_PATH ROOT_DIR @ ''...''),
                              Line (''Reading Config from '' @ CONFIG_PATH ROOT_DIR @ ''...''),
                              Report ''Error reading config: '' e]\<rparr>)
          \<and> exit_status (completion (build_with modules ROOT_DIR fs)) = 0)
       \<and> (disk (build_with modules ROOT_DIR fs') \<noteq> fs' \<longrightarrow>
            (\<exists>css' t v. nodes fs' (CSS_PATH ROOT_DIR) = File css'
               \<and> nodes fs' (CONFIG_PATH ROOT_DIR) = File t \<and> json_loads t = Some v)
          \<and> (\<forall>m\<in>set modules. \<exists>x. nodes fs' (path_join (JS_DIR ROOT_DIR) m) = File x)
          \<and> writable fs' (OUTPUT_FILE ROOT_DIR)
          \<and> exit_status (completion (build_with modules ROOT_DIR fs')) = 0)"
proof -
  from bad obtain e where e: "read_config fs ROOT_DIR = Inl e"
    using read_config_Inl by blast
  note inv = build_with_invalid_config [OF e, where modules = modules]
  have a: "disk (build_with modules ROOT_DIR fs) = fs"
    by (rule inv(1))
  have b: "(\<exists>e. build_with modules ROOT_DIR fs =
                   \<lparr>completion = Returned, disk = fs,
                    stdout = [Line ''Building viewer.html...'',
                              Line (''Reading CSS from '' @ CSS_PATH ROOT_DIR @ ''...''),
                              Line (''Reading Config from '' @ CONFIG_PATH ROOT_DIR @ ''...''),
                              Report ''Error reading config: '' e]\<rparr>)
          \<and> exit_status (completion (build_with modules ROOT_DIR fs)) = 0"
    if "nodes fs (CSS_PATH ROOT_DIR) = File css"
    using inv(2) [OF that] by (auto simp: exit_status_def)
  have c: "(\<exists>css' t v. nodes fs' (CSS_PATH ROOT_DIR) = File css'
               \<and> nodes fs' (CONFIG_PATH ROOT_DIR) = File t \<and> json_loads t = Some v)
          \<and> (\<forall>m\<in>set modules. \<exists>x. nodes fs' (path_join (JS_DIR ROOT_DIR) m) = File x)
          \<and> writable fs' (OUTPUT_FILE ROOT_DIR)
          \<and> exit_status (completion (build_with modules ROOT_DIR fs')) = 0"
    if "disk (build_with modules ROOT_DIR fs') \<noteq> fs'"
  proof -
    from build_with_writes [OF that] obtain css' cfg js out where
      w: "nodes fs' (CSS_PATH ROOT_DIR) = File css'"
         "read_config fs' ROOT_DIR = Inr cfg"
         "bundle_modules fs' (JS_DIR ROOT_DIR) modules []
              [Line ''Building viewer.html...'',
               Line (''Reading CSS from '' @ CSS_PATH ROOT_DIR @ ''...''),
               Line (''Reading Config from '' @ CONFIG_PATH ROOT_DIR @ ''...'')] = Inr (js, out)"
         "writable fs' (OUTPUT_FILE ROOT_DIR)"
         "completion (build_with modules ROOT_DIR fs') = Returned"
      by auto
    from read_config_Inr [OF w(2)] w(1) bundle_modules_Inr [OF w(3)] w(4) w(5)
    show ?thesis by (auto simp: exit_status_def)
  qed
  from a b c show ?thesis by blast
qed

theorem invalid_config_writes_nothing_witness:
  "disk (build ''/repo'' fs_broken_config) = fs_broken_config
   \<and> exit_status (completion (build ''/repo'' fs_broken_config)) = 0"
proof -
  have p: \<open>json_loads ''{"a":}'' = None\<close>
    by code_simp
  have h: "nodes fs_broken_config (CONFIG_PATH ''/repo'') = Absent
     \<or> nodes fs_broken_config (CONFIG_PATH ''/repo'') = Unreadable
     \<or> (\<exists>t. nodes fs_broken_config (CONFIG_PATH ''/repo'') = File t \<and> json_loads t = None)"
    using p by (simp add: fs_broken_config_def CONFIG_PATH_def path_join_def)
  have c: "nodes fs_broken_config (CSS_PATH ''/repo'') = File []"
    by (simp add: fs_broken_config_def CSS_PATH_def path_join_def)
  show ?thesis
    using invalid_config_writes_nothing [OF h, where modules = js_files and css = "[]"] c
    by (simp add: build_def)
qed

text \<open>
  C6. A build whose configuration file is missing, unreadable or not JSON is to write no
  output, report the failure and end with a non-success exit status. The code does the
  first two and not the third: with the stylesheet in place and no configuration file,
  the \<open>except\<close> block prints the error and returns, nothing is written, \<open>build\<close> returns and
  the script exits with status 0. The comment in that block says that it is better to fail,
  and the reads next to it do fail the script: with no stylesheet the exception leaves
  \<open>build\<close> and the exit status is 1.
\<close>

theorem missing_config_exits_with_success:
  "nodes fs_without_config (CONFIG_PATH ''/repo'') = Absent
   \<and> build ''/repo'' fs_without_config =
       \<lparr>completion = Returned, disk = fs_without_config,
        stdout = [Line ''Building viewer.html...'',
                  Line ''Reading CSS from /repo/css/table-renderer.css...'',
                  Line ''Reading Config from /repo/configs/genome-data.config.json...'',
                  Report ''Error reading config: ''
                    (FileNotFoundError ''/repo/configs/genome-data.config.json'')]\<rparr>
   \<and> exit_status (completion (build ''/repo'' fs_without_config)) = 0
   \<and> completion (build ''/repo'' fs_nothing)
       = Raised (FileNotFoundError ''/repo/css/table-renderer.css'')
   \<and> exit_status (completion (build ''/repo'' fs_nothing)) = 1"
  by (simp add: build_def build_with_def read_config_def read_file_def exit_status_def
        fs_without_config_def fs_nothing_def CONFIG_PATH_def CSS_PATH_def path_join_def Let_def)





subsection \<open>The text of a falsy value\<close>

text \<open>
  A text whose value is falsy is one token (\<open>null\<close>, \<open>false\<close>, a number, \<open>NaN\<close> or the empty
  string literal) with white space around it, and no character of it is \<open><\<close>.
\<close>

lemma no_lt_append: "no_lt (a @ b) \<longleftrightarrow> no_lt a \<and> no_lt b"
  by (auto simp: no_lt_def)

lemma digits_no_lt: "no_lt (takeWhile is_digit s)"
proof -
  have "\<forall>c\<in>set (takeWhile is_digit s). is_digit c"
    by (auto dest: set_takeWhileD)
  moreover have "\<not> is_digit (CHR ''<'')"
    by (simp add: is_digit_def)
  ultimately show ?thesis
    by (auto simp: no_lt_def)
qed

lemma skip_ws_split: "\<exists>pre. s = pre @ skip_ws s \<and> no_lt pre"
proof -
  have "\<forall>c\<in>set (takeWhile json_ws s). json_ws c"
    by (auto dest: set_takeWhileD)
  moreover have "\<not> json_ws (CHR ''<'')"
    by (simp add: json_ws_def)
  ultimately have "no_lt (takeWhile json_ws s)"
    by (auto simp: no_lt_def)
  moreover have "s = takeWhile json_ws s @ skip_ws s"
    by (simp add: skip_ws_def)
  ultimately show ?thesis by blast
qed

lemma blank_no_lt:
  assumes "skip_ws r = []"
  shows "no_lt r"
proof -
  from assms have "\<forall>c\<in>set r. json_ws c"
    by (simp add: skip_ws_def dropWhile_all)
  moreover have "\<not> json_ws (CHR ''<'')"
    by (simp add: json_ws_def)
  ultimately show ?thesis
    by (auto simp: no_lt_def)
qed

lemma strip_prefix_split:
  assumes "strip_prefix p s = Some r"
  shows "s = p @ r"
  using assms by (induction p s rule: strip_prefix.induct) (auto split: if_splits)

lemma scan_int_part_split:
  assumes "scan_int_part s = Some (i, r)"
  shows "\<exists>pre. s = pre @ r \<and> no_lt pre"
proof (cases s)
  case Nil
  with assms show ?thesis by (simp add: scan_int_part_def)
next
  case (Cons c cs)
  show ?thesis
  proof (cases "c = CHR ''0''")
    case True
    with assms Cons have "s = [CHR ''0''] @ r"
      by (simp add: scan_int_part_def)
    moreover have "no_lt [CHR ''0'']" by (simp add: no_lt_def)
    ultimately show ?thesis by blast
  next
    case False
    with assms Cons have "r = dropWhile is_digit s"
      by (auto simp: scan_int_part_def split: if_splits)
    then have "s = takeWhile is_digit s @ r" by simp
    with digits_no_lt [of s] show ?thesis by blast
  qed
qed

lemma scan_frac_part_split: "\<exists>pre. s = pre @ snd (scan_frac_part s) \<and> no_lt pre"
proof (cases s)
  case Nil
  then show ?thesis by (simp add: scan_frac_part_def no_lt_def)
next
  case (Cons c cs)
  show ?thesis
  proof (cases "c = CHR ''.'' \<and> takeWhile is_digit cs \<noteq> []")
    case True
    with Cons have r: "snd (scan_frac_part s) = dropWhile is_digit cs"
      by (simp add: scan_frac_part_def)
    have "s = (CHR ''.'' # takeWhile is_digit cs) @ dropWhile is_digit cs"
      using Cons True by simp
    moreover have "no_lt (CHR ''.'' # takeWhile is_digit cs)"
      using digits_no_lt [of cs] by (simp add: no_lt_def)
    ultimately show ?thesis using r by metis
  next
    case False
    with Cons have "snd (scan_frac_part s) = s"
      by (auto simp: scan_frac_part_def)
    then have "s = [] @ snd (scan_frac_part s)" by simp
    moreover have "no_lt []" by (simp add: no_lt_def)
    ultimately show ?thesis by blast
  qed
qed

lemma scan_exp_part_split: "\<exists>pre. s = pre @ snd (scan_exp_part s) \<and> no_lt pre"
proof -
  have keep: ?thesis if "snd (scan_exp_part s) = s"
  proof -
    from that have "s = [] @ snd (scan_exp_part s)" by simp
    moreover have "no_lt []" by (simp add: no_lt_def)
    ultimately show ?thesis by blast
  qed
  show ?thesis
  proof (cases s)
    case Nil
    then have "snd (scan_exp_part s) = s" by (simp add: scan_exp_part_def)
    then show ?thesis by (rule keep)
  next
    case (Cons c r)
    show ?thesis
    proof (cases "c = CHR ''e'' \<or> c = CHR ''E''")
      case False
      with Cons have "snd (scan_exp_part s) = s" by (simp add: scan_exp_part_def)
      then show ?thesis by (rule keep)
    next
      case e: True
      define r1 where
        "r1 = (if r \<noteq> [] \<and> (hd r = CHR ''-'' \<or> hd r = CHR ''+'') then tl r else r)"
      show ?thesis
      proof (cases "takeWhile is_digit r1 = []")
        case True
        with Cons e have "snd (scan_exp_part s) = s"
          by (simp add: scan_exp_part_def Let_def r1_def)
        then show ?thesis by (rule keep)
      next
        case False
        with Cons e have res: "snd (scan_exp_part s) = dropWhile is_digit r1"
          by (simp add: scan_exp_part_def Let_def r1_def)
        obtain sign where sign: "r = sign @ r1" "no_lt sign"
        proof (cases "r \<noteq> [] \<and> (hd r = CHR ''-'' \<or> hd r = CHR ''+'')")
          case True
          then have "r = [hd r] @ r1" by (cases r) (auto simp: r1_def)
          moreover from True have "no_lt [hd r]" by (auto simp: no_lt_def)
          ultimately show ?thesis by (rule that)
        next
          case False
          then have "r = [] @ r1" by (auto simp: r1_def)
          moreover have "no_lt []" by (simp add: no_lt_def)
          ultimately show ?thesis by (rule that)
        qed
        have "s = (c # sign @ takeWhile is_digit r1) @ dropWhile is_digit r1"
          using Cons sign(1) by simp
        moreover have "no_lt (c # sign @ takeWhile is_digit r1)"
          using e sign(2) digits_no_lt [of r1] by (auto simp: no_lt_def)
        ultimately show ?thesis using res by metis
      qed
    qed
  qed
qed

lemma scan_number_split:
  assumes "scan_number s = Some (q, r)"
  shows "\<exists>pre. s = pre @ r \<and> no_lt pre"
proof -
  define s1 where "s1 = (if s \<noteq> [] \<and> hd s = CHR ''-'' then tl s else s)"
  obtain sign where sign: "s = sign @ s1" "no_lt sign"
  proof (cases "s \<noteq> [] \<and> hd s = CHR ''-''")
    case True
    then have "s = [hd s] @ s1" by (cases s) (auto simp: s1_def)
    moreover from True have "no_lt [hd s]" by (simp add: no_lt_def)
    ultimately show ?thesis by (rule that)
  next
    case False
    then have "s = [] @ s1" by (auto simp: s1_def)
    moreover have "no_lt []" by (simp add: no_lt_def)
    ultimately show ?thesis by (rule that)
  qed
  from assms obtain i s2 where i: "scan_int_part s1 = Some (i, s2)"
    and r: "r = snd (scan_exp_part (snd (scan_frac_part s2)))"
    by (auto simp: scan_number_def Let_def s1_def split: option.splits prod.splits)
  from scan_int_part_split [OF i] obtain p1 where p1: "s1 = p1 @ s2" "no_lt p1" by blast
  from scan_frac_part_split [of s2] obtain p2 where
    p2: "s2 = p2 @ snd (scan_frac_part s2)" "no_lt p2" by blast
  from scan_exp_part_split [of "snd (scan_frac_part s2)"] obtain p3 where
    p3: "snd (scan_frac_part s2) = p3 @ r" "no_lt p3"
    unfolding r by blast
  have "s = (sign @ p1 @ p2 @ p3) @ r"
    using sign(1) p1(1) p2(1) p3(1) by (metis append.assoc)
  moreover have "no_lt (sign @ p1 @ p2 @ p3)"
    using sign(2) p1(2) p2(2) p3(2) by (simp add: no_lt_append)
  ultimately show ?thesis by blast
qed

lemma parse_atom_split:
  assumes "parse_atom ext s = Some (v, r)"
  shows "\<exists>pre. s = pre @ r \<and> no_lt pre"
proof -
  from assms have
    "(\<exists>p \<in> set [''null'', ''true'', ''false'', ''NaN'', ''Infinity'', ''-Infinity''].
        strip_prefix p s = Some r)
     \<or> (\<exists>q. scan_number s = Some (q, r))"
    unfolding parse_atom_def
    by (auto split: option.splits if_splits)
  then show ?thesis
  proof
    assume "\<exists>p \<in> set [''null'', ''true'', ''false'', ''NaN'', ''Infinity'', ''-Infinity''].
        strip_prefix p s = Some r"
    then obtain p where p: "p \<in> set [''null'', ''true'', ''false'', ''NaN'', ''Infinity'', ''-Infinity'']"
      and sp: "strip_prefix p s = Some r" by blast
    from p have "no_lt p" by (auto simp: no_lt_def)
    with strip_prefix_split [OF sp] show ?thesis by blast
  next
    assume "\<exists>q. scan_number s = Some (q, r)"
    then obtain q where "scan_number s = Some (q, r)" by blast
    then show ?thesis by (rule scan_number_split)
  qed
qed

lemma scan_string_empty:
  assumes "scan_string cs = Some ([], r)"
  shows "cs = CHR 0x22 # r"
proof (cases cs)
  case Nil
  with assms show ?thesis by simp
next
  case (Cons c t)
  show ?thesis
  proof (cases "c = CHR 0x22")
    case True
    with assms Cons show ?thesis by simp
  next
    case False
    with assms Cons have False
      by (auto split: if_splits list.splits option.splits)
    then show ?thesis ..
  qed
qed

lemma falsy_value_split:
  assumes "parse_value ext n s = Some (v, r)" and "\<not> js_truthy v"
  shows "\<exists>pre. s = pre @ r \<and> no_lt pre"
proof (cases n)
  case 0
  with assms show ?thesis by simp
next
  case (Suc k)
  from skip_ws_split [of s] obtain ws where ws: "s = ws @ skip_ws s" "no_lt ws" by blast
  show ?thesis
  proof (cases "skip_ws s")
    case Nil
    with assms Suc show ?thesis by simp
  next
    case (Cons c t)
    have tok: "\<exists>pre. c # t = pre @ r \<and> no_lt pre"
    proof (cases "c = CHR 0x22")
      case True
      with assms Suc Cons obtain x where x: "scan_string t = Some (x, r)" "v = JStr x"
        by (auto split: option.splits)
      with assms(2) have "x = []" by simp
      with x(1) have "t = CHR 0x22 # r" by (simp add: scan_string_empty)
      with True have "c # t = [CHR 0x22, CHR 0x22] @ r" by simp
      moreover have "no_lt [CHR 0x22, CHR 0x22]" by (simp add: no_lt_def)
      ultimately show ?thesis by blast
    next
      case nq: False
      show ?thesis
      proof (cases "c = CHR ''{'' \<or> c = CHR ''[''")
        case True
        with assms Suc Cons nq have "js_truthy v"
          by (auto split: list.splits option.splits if_splits)
        with assms(2) show ?thesis by simp
      next
        case False
        with assms Suc Cons nq have "parse_atom ext (c # t) = Some (v, r)"
          by simp
        then show ?thesis by (rule parse_atom_split)
      qed
    qed
    then obtain pre where pre: "c # t = pre @ r" "no_lt pre" by blast
    from ws(1) Cons pre(1) have "s = (ws @ pre) @ r" by simp
    moreover from ws(2) pre(2) have "no_lt (ws @ pre)" by (simp add: no_lt_append)
    ultimately show ?thesis by blast
  qed
qed

lemma falsy_text_has_no_lt:
  assumes "json_loads t = Some v" and "\<not> js_truthy v"
  shows "no_lt t"
proof -
  from assms(1) obtain r where
    p: "parse_value True (2 * length t + 2) t = Some (v, r)" and r: "skip_ws r = []"
    by (auto simp: json_loads_def json_document_def split: option.splits if_splits)
  from falsy_value_split [OF p assms(2)] obtain pre where "t = pre @ r" "no_lt pre"
    by blast
  with blank_no_lt [OF r] show ?thesis
    by (simp add: no_lt_append)
qed

subsection \<open>A falsy default in the artifact and in the page\<close>

text \<open>
  C10. Let the text of the configuration file be valid JSON with a falsy value: \<open>null\<close>,
  \<open>false\<close>, \<open>0\<close> and the empty string literal are such texts, and so is any of them with
  white space around it. The \<open>try\<close> block of the build passes, and a build that can read
  its other files writes a document with this text at the place of the default
  configuration. The text holds no \<open><\<close>, so the script element is not cut short by it
  and \<open>DEFAULT_CONFIG\<close> is the value of the one token the text is. In the page the test \<open>if (DEFAULT_CONFIG)\<close> fails for the value: step 3
  of the listener leaves every page as it is, and with no \<open>config\<close> parameter the page after
  load is the initial page, the setup surface on screen and the engine not constructed.
\<close>

theorem falsy_default_is_treated_as_absent:
  assumes valid: "json_loads t = Some v"
    and falsy: "\<not> js_truthy v"
  shows "no_lt t
       \<and> (nodes fs (CONFIG_PATH ROOT_DIR) = File t \<longrightarrow> read_config fs ROOT_DIR = Inr t)
       \<and> (nodes fs (CSS_PATH ROOT_DIR) = File css
            \<and> nodes fs (CONFIG_PATH ROOT_DIR) = File t
            \<and> (\<forall>m\<in>set modules. nodes fs (path_join (JS_DIR ROOT_DIR) m) = File (content m))
            \<and> writable fs (OUTPUT_FILE ROOT_DIR) \<longrightarrow>
          nodes (disk (build_with modules ROOT_DIR fs)) (OUTPUT_FILE ROOT_DIR) =
            File (template_head @ css @ template_style @ t @ template_script
                  @ concat (map (\<lambda>m. ''\<newline>/* --- '' @ m @ '' --- */\<newline>'' @ content m @ ''\<newline>'')
                      modules)
                  @ template_tail))
       \<and> use_embedded engine v p = p
       \<and> DOMContentLoaded engine fetch None v initial_page = initial_page
       \<and> bootstrap_state (DOMContentLoaded engine fetch None v initial_page) = SetupVisible
       \<and> engine_calls (DOMContentLoaded engine fetch None v initial_page) = []
       \<and> (\<forall>t' \<in> set [''null'', ''false'', ''0'', [CHR 0x22, CHR 0x22]].
            \<exists>v'. json_loads t' = Some v' \<and> \<not> js_truthy v')"
proof -
  have rc: "nodes fs (CONFIG_PATH ROOT_DIR) = File t \<longrightarrow> read_config fs ROOT_DIR = Inr t"
    using valid by (simp add: read_config_valid)
  have art: "nodes (disk (build_with modules ROOT_DIR fs)) (OUTPUT_FILE ROOT_DIR) =
            File (template_head @ css @ template_style @ t @ template_script
                  @ concat (map (\<lambda>m. ''\<newline>/* --- '' @ m @ '' --- */\<newline>'' @ content m @ ''\<newline>'')
                      modules)
                  @ template_tail)"
    if "nodes fs (CSS_PATH ROOT_DIR) = File css"
      and "nodes fs (CONFIG_PATH ROOT_DIR) = File t"
      and "\<forall>m\<in>set modules. nodes fs (path_join (JS_DIR ROOT_DIR) m) = File (content m)"
      and "writable fs (OUTPUT_FILE ROOT_DIR)"
    using build_with_all_readable [OF that(1) that(2) valid that(3) that(4)]
    by (simp add: html_template_def)
  have skip: "use_embedded engine v p = p"
    using falsy by (simp add: use_embedded_def)
  have load: "DOMContentLoaded engine fetch None v initial_page = initial_page"
    using falsy by (rule falsy_default_skipped)
  have calls: "engine_calls initial_page = []"
    by (simp add: initial_page_def)
  have st: "bootstrap_state (DOMContentLoaded engine fetch None v initial_page) = SetupVisible"
    using load initial_page_setup_visible by simp
  have ec: "engine_calls (DOMContentLoaded engine fetch None v initial_page) = []"
    using load calls by simp
  have named: "\<forall>t' \<in> set [''null'', ''false'', ''0'', [CHR 0x22, CHR 0x22]].
            \<exists>v'. json_loads t' = Some v' \<and> \<not> js_truthy v'"
    using falsy_literals by simp
  note plain = falsy_text_has_no_lt [OF valid falsy]
  from plain rc art skip load st ec named show ?thesis
    by blast
qed

theorem falsy_default_is_treated_as_absent_witness:
  "json_loads ''null\<newline>'' = Some JNull
   \<and> read_config fs_null_newline ''/repo'' = Inr ''null\<newline>''
   \<and> nodes (disk (build_with [] ''/repo'' fs_null_newline)) ''/repo/viewer.html'' =
       File (template_head @ template_style @ ''null\<newline>'' @ template_script @ template_tail)
   \<and> DOMContentLoaded (\<lambda>c. RenderResolves) (\<lambda>u. Rejected ''offline'') None JNull
        initial_page = initial_page
   \<and> bootstrap_state
        (DOMContentLoaded (\<lambda>c. RenderResolves) (\<lambda>u. Rejected ''offline'') None JNull
           initial_page) = SetupVisible"
proof -
  have l: "json_loads ''null\<newline>'' = Some JNull" by code_simp
  have f: "\<not> js_truthy JNull" by simp
  have c: "nodes fs_null_newline (CONFIG_PATH ''/repo'') = File ''null\<newline>''"
    by (simp add: fs_null_newline_def CONFIG_PATH_def path_join_def)
  have s: "nodes fs_null_newline (CSS_PATH ''/repo'') = File []"
    by (simp add: fs_null_newline_def CSS_PATH_def path_join_def)
  have m: "\<forall>m\<in>set []. nodes fs_null_newline (path_join (JS_DIR ''/repo'') m) = File []"
    by simp
  have w: "writable fs_null_newline (OUTPUT_FILE ''/repo'')"
    by (simp add: fs_null_newline_def)
  have o: "OUTPUT_FILE ''/repo'' = ''/repo/viewer.html''"
    by (simp add: OUTPUT_FILE_def path_join_def)
  from falsy_default_is_treated_as_absent
      [OF l f, where fs = fs_null_newline and ROOT_DIR = "''/repo''" and css = "[]"
         and modules = "[]" and content = "\<lambda>m. []"
         and engine = "\<lambda>c. RenderResolves" and fetch = "\<lambda>u. Rejected ''offline''"]
    l c s m w o initial_page_setup_visible
  show ?thesis by simp
qed

end
